theory Spec2Isabelle
  imports Complex_Main "HOL-Library.AList" "HOL-Library.Monad_Syntax"
begin

section \<open>Data model of \<open>app.py\<close>\<close>

text \<open>
  Python strings that carry file content are lists of Unicode code points; short
  identifiers, keys and messages are \<open>string\<close>s. \<open>lit\<close> turns a literal into code points.
\<close>

type_synonym ustr = "nat list"

definition lit :: "string \<Rightarrow> ustr" where
  "lit s = map of_char s"

text \<open>
  A face's metadata record is a Python dict with the keys \<open>color\<close>, \<open>thread\<close> and
  \<open>tolerance\<close>: an association list in insertion order. The thread dict always has the
  four keys type, size, pitch, class; the tolerance dict the three keys type, value, datum.
\<close>

datatype attr =
    Color string
  | Thread string string string string
  | Tolerance string string string

type_synonym meta = "(string \<times> attr) list"

text \<open>
  A Python float, as far as \<open>get_holes\<close> tells floats apart: a finite value, an infinity, or
  NaN. A finite value is an exact rational, as the value of every finite double is; \<open>-0.0\<close>
  and \<open>0.0\<close> are the one value \<open>Finite 0\<close>, as they are for \<open>==\<close>, \<open>hash\<close> and \<open><\<close>.
\<close>

datatype pyfloat = Finite rat | PosInf | NegInf | NaN

text \<open>
  What \<open>BRepAdaptor_Surface\<close> reports for a face: a cylinder with its radius (a double), or
  another surface.
\<close>

datatype shape = CylinderFace pyfloat | OtherFace

text \<open>An entry of \<open>model.face_labels\<close>: \<open>None\<close>, a null label, or a label.\<close>

datatype label = NoLabel | NullLabel | Label nat

datatype color_target = OnLabel nat | OnShape shape

text \<open>\<open>core.state.model\<close>, the process-wide document session.\<close>

record 'q session =
  doc :: "nat option"
  face_shapes :: "shape list"
  face_labels :: "label list"
  face_hashes :: "string option list"
  face_raws :: "string list"
  face_meta :: "int \<rightharpoonup> meta"
  model_uuid :: "string option"
  original_filename :: "string option"
  color_tool :: "(color_target \<times> 'q) list"

text \<open>The calls the routes make into \<open>face_db\<close>, the fingerprint store.\<close>

datatype db_call =
    SaveFaceMeta string meta "string option"
  | DeleteFaces "string list"
  | ClearDatabase

text \<open>Files the routes touch: \<open>UPLOAD_FOLDER/<name>.step\<close> and \<open>tests/sample.step\<close>.\<close>

datatype path = Uploaded string | SampleStep

datatype console_line =
    MetaBefore "string list"
  | MetaStillDetected "string list"
  | FileIsClean int
  | FileNotFound path
  | MemoryCleared string

text \<open>
  What a request does outside the session, in the order it happens: calls into the store,
  writes and removals of files, and lines printed.
\<close>

datatype effect =
    DbCall db_call
  | WriteFile path
  | RemoveFile path
  | Print console_line

text \<open>
  Everything a request can read or change: the session, the files on disk, and the effects
  so far (oldest first). The store is the sequence of calls made to it.
\<close>

record 'q world =
  sess :: "'q session"
  files :: "path \<rightharpoonup> ustr"
  trace :: "effect list"

fun db_calls :: "effect list \<Rightarrow> db_call list" where
  "db_calls [] = []"
| "db_calls (DbCall c # es) = c # db_calls es"
| "db_calls (_ # es) = db_calls es"

definition db_log :: "'q world \<Rightarrow> db_call list" where
  "db_log w = db_calls (trace w)"

definition emit :: "effect \<Rightarrow> 'q world \<Rightarrow> 'q world" where
  "emit x w = w\<lparr>trace := trace w @ [x]\<rparr>"

text \<open>
  The collaborators whose code is outside \<open>app.py\<close> are parameters. A result \<open>None\<close> or
  \<open>Inl msg\<close> is a raised exception; \<open>db_ok c log\<close> says whether the store call \<open>c\<close>
  completes after the calls \<open>log\<close>.
\<close>

record ('q, 'f) env =
  hex_to_quantity :: "string \<Rightarrow> 'q option"
  db_ok :: "db_call \<Rightarrow> db_call list \<Rightarrow> bool"
  load_step_xcaf :: "path \<Rightarrow> 'q world \<Rightarrow> (string + 'f) \<times> 'q session"
  export_step_xcaf ::
    "'q session \<Rightarrow> (path \<rightharpoonup> ustr) \<Rightarrow>
     (string + string \<times> string \<times> ustr) \<times> 'q session \<times> (path \<rightharpoonup> ustr)"
  extract_meta_from_step :: "ustr \<Rightarrow> (string \<times> meta) list"
  splitext :: "string \<Rightarrow> string \<times> string"
  lower :: "string \<Rightarrow> string"

text \<open>What a route returns; \<open>Unhandled\<close> is an exception that leaves the route function.\<close>

datatype hole_group = HoleGroup (diameter: pyfloat) (ids: "nat list") (count: nat)

text \<open>The parts of the purge route's message, which the route joins with \<open>" & "\<close>.\<close>

datatype message_part =
    DeletedAllEntries
  | DeletedEntries nat
  | StrippedFile int
  | ClearedMemory

datatype 'f response =
    Err nat string
  | Faces 'f string
  | Updated nat
  | Attachment ustr string string
  | Holes "hole_group list"
  | Purged nat "message_part list"
  | Unhandled

section \<open>Metadata mutation: \<open>set_color\<close>, \<open>set_thread\<close>, \<open>set_tolerance\<close>\<close>

text \<open>A batch item: \<open>item.get("face_id")\<close> and the value, each possibly missing.\<close>

type_synonym 'v item = "int option \<times> 'v option"

record 'v request =
  updates :: "'v item list option"
  face_id :: "int option"
  val :: "'v option"

definition items_of :: "'v request \<Rightarrow> 'v item list" where
  "items_of data =
     (case updates data of
        None \<Rightarrow> [(face_id data, val data)]
      | Some us \<Rightarrow> us)"

definition dict_get :: "(string \<times> string) list \<Rightarrow> string \<Rightarrow> string \<Rightarrow> string" where
  "dict_get d k dflt = (case map_of d k of None \<Rightarrow> dflt | Some v \<Rightarrow> v)"

text \<open>\<open>face_id < 0 or face_id >= len(model.face_shapes)\<close>\<close>

definition out_of_range :: "'q world \<Rightarrow> int \<Rightarrow> bool" where
  "out_of_range w i \<longleftrightarrow> i < 0 \<or> i \<ge> int (length (face_shapes (sess w)))"

text \<open>\<open>model.face_meta.setdefault(face_id, {})[key] = v\<close>\<close>

definition meta_set :: "int \<Rightarrow> string \<Rightarrow> attr \<Rightarrow> 'q world \<Rightarrow> 'q world" where
  "meta_set i k v w =
     w\<lparr>sess := (sess w)\<lparr>face_meta :=
        (face_meta (sess w))(i \<mapsto>
           AList.update k v (case face_meta (sess w) i of None \<Rightarrow> [] | Some m \<Rightarrow> m))\<rparr>\<rparr>"

text \<open>
  \<open>if face_id in model.face_meta: model.face_meta[face_id].pop(key, None);
  if not model.face_meta[face_id]: del model.face_meta[face_id]\<close>
\<close>

definition meta_pop :: "int \<Rightarrow> string \<Rightarrow> 'q world \<Rightarrow> 'q world" where
  "meta_pop i k w =
     (case face_meta (sess w) i of
        None \<Rightarrow> w
      | Some m \<Rightarrow>
          (let m' = AList.delete k m in
           if m' = [] then w\<lparr>sess := (sess w)\<lparr>face_meta := (face_meta (sess w))(i := None)\<rparr>\<rparr>
           else w\<lparr>sess := (sess w)\<lparr>face_meta := (face_meta (sess w))(i \<mapsto> m')\<rparr>\<rparr>))"

definition db_exec :: "('q, 'f) env \<Rightarrow> db_call \<Rightarrow> 'q world \<Rightarrow> 'q world option" where
  "db_exec e c w =
     (if db_ok e c (db_log w) then Some (emit (DbCall c) w) else None)"

text \<open>\<open>if fh and fh != "unknown"\<close>\<close>

definition known_hash :: "string option \<Rightarrow> bool" where
  "known_hash fh \<longleftrightarrow> (case fh of None \<Rightarrow> False | Some h \<Rightarrow> h \<noteq> [] \<and> h \<noteq> ''unknown'')"

text \<open>
  The block that follows each in-memory update (the same in the three routes): save the
  face's record under its fingerprint. The result is the world and the increment of
  \<open>db_updated_count\<close>; \<open>None\<close> when \<open>save_face_meta\<close> raises.
\<close>

definition persist :: "('q, 'f) env \<Rightarrow> int \<Rightarrow> 'q world \<Rightarrow> ('q world \<times> nat) option" where
  "persist e i w =
     (if i < int (length (face_hashes (sess w))) then
        (let fh = face_hashes (sess w) ! nat i;
             raw = (if i < int (length (face_raws (sess w)))
                    then Some (face_raws (sess w) ! nat i) else None)
         in if known_hash fh then
              (let m = (case face_meta (sess w) i of None \<Rightarrow> [] | Some m \<Rightarrow> m)
               in if m \<noteq> [] then
                    (case db_exec e (SaveFaceMeta (the fh) m raw) w of
                       None \<Rightarrow> None
                     | Some w' \<Rightarrow> Some (w', 1))
                  else Some (w, 0))
            else Some (w, 0))
      else Some (w, 0))"

text \<open>
  The body of the \<open>try\<close> in \<open>set_color\<close>; \<open>None\<close> is an exception raised before anything
  was changed, \<open>Some (w', None)\<close> one raised by the store after the colour and the record
  were set.
\<close>

definition color_body ::
  "('q, 'f) env \<Rightarrow> int \<Rightarrow> string \<Rightarrow> 'q world \<Rightarrow> ('q world \<times> nat option) option" where
  "color_body e i hex w =
     (case hex_to_quantity e hex of
        None \<Rightarrow> None
      | Some q \<Rightarrow>
          if nat i < length (face_labels (sess w)) then
            (let face_label = face_labels (sess w) ! nat i;
                 face_shape = face_shapes (sess w) ! nat i;
                 tgt = (case face_label of Label l \<Rightarrow> OnLabel l | _ \<Rightarrow> OnShape face_shape);
                 w1 = w\<lparr>sess := (sess w)\<lparr>color_tool := color_tool (sess w) @ [(tgt, q)]\<rparr>\<rparr>;
                 w2 = meta_set i ''color'' (Color hex) w1
             in case persist e i w2 of
                  None \<Rightarrow> Some (w2, None)
                | Some (w3, k) \<Rightarrow> Some (w3, Some k))
          else None)"

fun set_color_items ::
  "('q, 'f) env \<Rightarrow> string item list \<Rightarrow> 'q world \<Rightarrow> nat \<Rightarrow> 'q world \<times> nat" where
  "set_color_items e [] w n = (w, n)"
| "set_color_items e ((fid, hex_color) # rest) w n =
     (case (fid, hex_color) of
        (Some i, Some hex) \<Rightarrow>
          if out_of_range w i then set_color_items e rest w n
          else (case color_body e i hex w of
                  None \<Rightarrow> set_color_items e rest w n
                | Some (w', None) \<Rightarrow> set_color_items e rest w' n
                | Some (w', Some k) \<Rightarrow> set_color_items e rest w' (n + k))
      | _ \<Rightarrow> set_color_items e rest w n)"

definition set_color ::
  "('q, 'f) env \<Rightarrow> string request \<Rightarrow> 'q world \<Rightarrow> 'f response \<times> 'q world" where
  "set_color e data w =
     (if doc (sess w) = None then (Err 400 ''No model loaded'', w)
      else (case set_color_items e (items_of data) w 0 of
              (w', n) \<Rightarrow> (Updated n, w')))"

definition thread_attr :: "(string \<times> string) list \<Rightarrow> attr" where
  "thread_attr thread =
     Thread (dict_get thread ''type'' '''') (dict_get thread ''size'' '''')
            (dict_get thread ''pitch'' '''') (dict_get thread ''class'' '''')"

definition tolerance_attr :: "(string \<times> string) list \<Rightarrow> attr" where
  "tolerance_attr tol =
     Tolerance (dict_get tol ''type'' '''') (dict_get tol ''value'' '''')
               (dict_get tol ''datum'' '''')"

text \<open>\<open>if thread:\<close> holds for a dict that is present and not empty.\<close>

definition truthy :: "(string \<times> string) list option \<Rightarrow> bool" where
  "truthy v \<longleftrightarrow> (case v of None \<Rightarrow> False | Some d \<Rightarrow> d \<noteq> [])"

text \<open>
  The loops of \<open>set_thread\<close> and \<open>set_tolerance\<close> differ in the key and in the dict they
  build; \<open>save_face_meta\<close> is called outside any \<open>try\<close>, so its exception ends the request
  (the count is then \<open>None\<close>).
\<close>

fun set_attr_items ::
  "('q, 'f) env \<Rightarrow> string \<Rightarrow> ((string \<times> string) list \<Rightarrow> attr) \<Rightarrow>
   (string \<times> string) list item list \<Rightarrow> 'q world \<Rightarrow> nat \<Rightarrow> 'q world \<times> nat option" where
  "set_attr_items e key mk [] w n = (w, Some n)"
| "set_attr_items e key mk ((fid, v) # rest) w n =
     (case fid of
        None \<Rightarrow> set_attr_items e key mk rest w n
      | Some i \<Rightarrow>
          if out_of_range w i then set_attr_items e key mk rest w n
          else
            (let w1 = (if truthy v then meta_set i key (mk (the v)) w else meta_pop i key w)
             in case persist e i w1 of
                  None \<Rightarrow> (w1, None)
                | Some (w2, k) \<Rightarrow> set_attr_items e key mk rest w2 (n + k)))"

definition set_attr ::
  "('q, 'f) env \<Rightarrow> string \<Rightarrow> ((string \<times> string) list \<Rightarrow> attr) \<Rightarrow>
   (string \<times> string) list request \<Rightarrow> 'q world \<Rightarrow> 'f response \<times> 'q world" where
  "set_attr e key mk data w =
     (if doc (sess w) = None then (Err 400 ''No model loaded'', w)
      else (case set_attr_items e key mk (items_of data) w 0 of
              (w', Some n) \<Rightarrow> (Updated n, w')
            | (w', None) \<Rightarrow> (Unhandled, w')))"

definition set_thread ::
  "('q, 'f) env \<Rightarrow> (string \<times> string) list request \<Rightarrow> 'q world \<Rightarrow> 'f response \<times> 'q world" where
  "set_thread e = set_attr e ''thread'' thread_attr"

definition set_tolerance ::
  "('q, 'f) env \<Rightarrow> (string \<times> string) list request \<Rightarrow> 'q world \<Rightarrow> 'f response \<times> 'q world" where
  "set_tolerance e = set_attr e ''tolerance'' tolerance_attr"

section \<open>The fingerprint store\<close>

text \<open>
  Modelled from the spec: the module \<open>face_db\<close> is not part of \<open>app.py\<close>. Section 4.4
  gives its contract: \<open>put\<close> is an upsert that overwrites the record of the fingerprint
  and does nothing for an empty record, \<open>delete_many\<close> removes the given fingerprints and
  ignores absent ones, \<open>clear_all\<close> removes every entry, \<open>get\<close> returns the record or
  absence.
\<close>

type_synonym store = "string \<rightharpoonup> meta \<times> string option"

fun store_apply :: "store \<Rightarrow> db_call \<Rightarrow> store" where
  "store_apply st (SaveFaceMeta fh m raw) = (if m = [] then st else st(fh \<mapsto> (m, raw)))"
| "store_apply st (DeleteFaces hs) = (\<lambda>fh. if fh \<in> set hs then None else st fh)"
| "store_apply st ClearDatabase = Map.empty"

definition store_of :: "db_call list \<Rightarrow> store" where
  "store_of calls = foldl store_apply Map.empty calls"

definition store_get :: "'q world \<Rightarrow> string \<Rightarrow> meta option" where
  "store_get w fh = map_option fst (store_of (db_log w) fh)"

section \<open>Loading: \<open>upload\<close> and \<open>get_model\<close>\<close>

text \<open>
  Modelled from the spec: \<open>model.reset()\<close> lives in \<open>core.state\<close>, which is not part of
  \<open>app.py\<close>. Section 4.5 has \<open>reset()\<close> lead to the state \<open>Empty\<close>, and section 3 lists
  what the session holds; \<open>Empty\<close> has none of it.
\<close>

definition reset :: "'q session \<Rightarrow> 'q session" where
  "reset s =
     \<lparr>doc = None, face_shapes = [], face_labels = [], face_hashes = [], face_raws = [],
      face_meta = Map.empty, model_uuid = None, original_filename = None, color_tool = []\<rparr>"

text \<open>
  \<open>upload\<close>: \<open>file\<close> is the uploaded part (its name and content) if the request has one,
  \<open>fresh\<close> the value of \<open>uuid.uuid4().hex\<close>, which has no dot, so that the stem of the saved
  name is \<open>fresh\<close> again. The file is saved as \<open>Uploaded fresh\<close>.
\<close>

definition upload ::
  "('q, 'f) env \<Rightarrow> string \<Rightarrow> (string \<times> ustr) option \<Rightarrow> 'q world \<Rightarrow> 'f response \<times> 'q world" where
  "upload e fresh file w =
     (case file of
        None \<Rightarrow> (Err 400 ''No file part'', w)
      | Some (filename, content) \<Rightarrow>
          if filename = [] then (Err 400 ''No selected file'', w)
          else
            (let ext = lower e (snd (splitext e filename)) in
             if ext \<noteq> ''.step'' \<and> ext \<noteq> ''.stp''
             then (Err 400 ''Only .step / .stp files are supported'', w)
             else
               (let save_path = Uploaded fresh;
                    w1 = emit (WriteFile save_path) (w\<lparr>files := (files w)(save_path \<mapsto> content)\<rparr>);
                    w2 = w1\<lparr>sess := (sess w1)\<lparr>original_filename := Some (fst (splitext e filename)),
                                              model_uuid := Some fresh\<rparr>\<rparr>
                in case load_step_xcaf e save_path w2 of
                     (Inl msg, s') \<Rightarrow>
                       (Err 500 msg,
                        (if files w2 save_path \<noteq> None
                         then emit (RemoveFile save_path)
                                (w2\<lparr>sess := reset s', files := (files w2)(save_path := None)\<rparr>)
                         else w2\<lparr>sess := reset s'\<rparr>))
                   | (Inr faces, s') \<Rightarrow> (Faces faces fresh, w2\<lparr>sess := s'\<rparr>))))"

definition get_model :: "('q, 'f) env \<Rightarrow> string \<Rightarrow> 'q world \<Rightarrow> 'f response \<times> 'q world" where
  "get_model e uuid_str w =
     (let path = Uploaded uuid_str in
      if files w path = None then (Err 404 ''Model not found'', w)
      else
        (let w1 = w\<lparr>sess := (reset (sess w))\<lparr>model_uuid := Some uuid_str\<rparr>\<rparr>
         in case load_step_xcaf e path w1 of
              (Inr faces, s') \<Rightarrow> (Faces faces uuid_str, w1\<lparr>sess := s'\<rparr>)
            | (Inl msg, s') \<Rightarrow> (Err 500 msg, w1\<lparr>sess := s'\<rparr>)))"

section \<open>Export\<close>

text \<open>
  \<open>export_step\<close>. The exporter works on the session and writes its file under the upload
  folder; section 6 gives it the metadata map and no handle on the store.
\<close>

definition export_step :: "('q, 'f) env \<Rightarrow> 'q world \<Rightarrow> 'f response \<times> 'q world" where
  "export_step e w =
     (if doc (sess w) = None then (Err 400 ''No model loaded'', w)
      else
        (case export_step_xcaf e (sess w) (files w) of
           (Inl msg, s', fs') \<Rightarrow> (Err 500 msg, w\<lparr>sess := s', files := fs'\<rparr>)
         | (Inr (filename, mimetype, file_stream), s', fs') \<Rightarrow>
             (let out_name = (case model_uuid s' of
                                None \<Rightarrow> filename
                              | Some u \<Rightarrow> if u \<noteq> [] then u @ ''.step'' else filename)
              in (Attachment file_stream out_name mimetype, w\<lparr>sess := s', files := fs'\<rparr>))))"

section \<open>Hole detection: \<open>get_holes\<close>\<close>














section \<open>Stripping embedded metadata from STEP text\<close>

text \<open>
  \<open>re.sub(pattern, repl, text)\<close> for a pattern given by its matcher: \<open>m s\<close> is the match
  of the pattern at the start of \<open>s\<close>, as the replacement and the text after the match.
  The scan goes left to right; where nothing matches the character is kept; an empty
  match is replaced and the scan moves one character on.
\<close>

fun re_sub :: "(ustr \<Rightarrow> (ustr \<times> ustr) option) \<Rightarrow> ustr \<Rightarrow> ustr" where
  "re_sub m [] = (case m [] of None \<Rightarrow> [] | Some (repl, rest) \<Rightarrow> repl)"
| "re_sub m (c # cs) =
     (case m (c # cs) of
        None \<Rightarrow> c # re_sub m cs
      | Some (repl, rest) \<Rightarrow>
          if length rest \<le> length cs then repl @ re_sub m rest
          else repl @ c # re_sub m cs)"

fun strip_prefix :: "ustr \<Rightarrow> ustr \<Rightarrow> ustr option" where
  "strip_prefix [] s = Some s"
| "strip_prefix (p # ps) [] = None"
| "strip_prefix (p # ps) (c # cs) = (if p = c then strip_prefix ps cs else None)"

text \<open>The text after the first occurrence of \<open>needle\<close>: what a lazy \<open>.*?\<close> before a literal finds.\<close>

fun find_after :: "ustr \<Rightarrow> ustr \<Rightarrow> ustr option" where
  "find_after needle [] = (if needle = [] then Some [] else None)"
| "find_after needle (c # cs) =
     (case strip_prefix needle (c # cs) of
        Some r \<Rightarrow> Some r
      | None \<Rightarrow> find_after needle cs)"

text \<open>
  A pattern \<open>open(.*?)close\<close> under \<open>re.DOTALL\<close>: the text between the markers and the
  text after the match.
\<close>

definition lazy_match :: "ustr \<Rightarrow> ustr \<Rightarrow> ustr \<Rightarrow> (ustr \<times> ustr) option" where
  "lazy_match opening closing s =
     do {
       r \<leftarrow> strip_prefix opening s;
       rest \<leftarrow> find_after closing r;
       Some (take (length r - length closing - length rest) r, rest)
     }"

text \<open>The same pattern as a matcher for \<open>re.sub\<close> with the empty replacement.\<close>

definition lazy_block :: "ustr \<Rightarrow> ustr \<Rightarrow> ustr \<Rightarrow> (ustr \<times> ustr) option" where
  "lazy_block opening closing s = map_option (\<lambda>(inner, rest). ([], rest)) (lazy_match opening closing s)"

definition tag_open :: ustr where
  "tag_open = lit ''[SVFM:''"

definition tag_close :: ustr where
  "tag_close = lit '']''"

definition comment_open :: ustr where
  "comment_open = lit ''/* __STEPVIEWER_META_START__ ''"

definition comment_close :: ustr where
  "comment_close = lit '' __STEPVIEWER_META_END__ */''"

text \<open>Strategy 2, \<open>\[SVFM:.*?\]\<close>.\<close>

definition tag_pattern :: "ustr \<Rightarrow> (ustr \<times> ustr) option" where
  "tag_pattern = lazy_block tag_open tag_close"

text \<open>Strategy 3, \<open>/\* __STEPVIEWER_META_START__ .*? __STEPVIEWER_META_END__ \*/\<close>.\<close>

definition comment_pattern :: "ustr \<Rightarrow> (ustr \<times> ustr) option" where
  "comment_pattern = lazy_block comment_open comment_close"

text \<open>\<open>\s\<close> in a \<open>str\<close> pattern: the code points for which \<open>str.isspace\<close> holds.\<close>

definition is_space :: "nat \<Rightarrow> bool" where
  "is_space c \<longleftrightarrow>
     (9 \<le> c \<and> c \<le> 13) \<or> (28 \<le> c \<and> c \<le> 32) \<or> c = 133 \<or> c = 160 \<or> c = 5760 \<or>
     (8192 \<le> c \<and> c \<le> 8202) \<or> c = 8232 \<or> c = 8233 \<or> c = 8239 \<or> c = 8287 \<or> c = 12288"

definition quote :: nat where
  "quote = 39"

text \<open>
  Strategy 1. The pattern is
  \<open>(DESCRIPTIVE_REPRESENTATION_ITEM\s*\(\s*'(?:SVFM|StepViewerFaceMetadata)'\s*,\s*')[^']*('\s*\))\<close>
  and the replacement \<open>\1\2\<close>. Each greedy \<open>\s*\<close> and \<open>[^']*\<close> is followed by a character
  outside its class, so giving back characters never helps and the longest run is the only
  candidate; the second alternative of the tag is tried when the first one leads to no
  match. \<open>entity_tail\<close> matches from after the tag's name to the end of the pattern and
  returns the payload, the second group and the text after the match.
\<close>

definition entity_tail :: "ustr \<Rightarrow> (ustr \<times> ustr \<times> ustr) option" where
  "entity_tail r =
     do {
       r1 \<leftarrow> strip_prefix [quote] r;
       r2 \<leftarrow> strip_prefix (lit '','') (dropWhile is_space r1);
       r3 \<leftarrow> strip_prefix [quote] (dropWhile is_space r2);
       let payload = takeWhile (\<lambda>c. c \<noteq> quote) r3;
       let r4 = dropWhile (\<lambda>c. c \<noteq> quote) r3;
       r5 \<leftarrow> strip_prefix [quote] r4;
       rest \<leftarrow> strip_prefix (lit '')'') (dropWhile is_space r5);
       Some (payload, take (length r4 - length rest) r4, rest)
     }"

definition keyword :: ustr where
  "keyword = lit ''DESCRIPTIVE_REPRESENTATION_ITEM''"

text \<open>The match at the start of \<open>s\<close>: first group, payload, second group, text after the match.\<close>

definition entity_match :: "ustr \<Rightarrow> (ustr \<times> ustr \<times> ustr \<times> ustr) option" where
  "entity_match s =
     do {
       r1 \<leftarrow> strip_prefix keyword s;
       r2 \<leftarrow> strip_prefix (lit ''('') (dropWhile is_space r1);
       r3 \<leftarrow> strip_prefix [quote] (dropWhile is_space r2);
       (payload, group2, rest) \<leftarrow>
          (case Option.bind (strip_prefix (lit ''SVFM'') r3) entity_tail of
             Some x \<Rightarrow> Some x
           | None \<Rightarrow> Option.bind (strip_prefix (lit ''StepViewerFaceMetadata'') r3) entity_tail);
       let group1 = take (length s - length payload - length group2 - length rest) s;
       Some (group1, payload, group2, rest)
     }"

definition entity_pattern :: "ustr \<Rightarrow> (ustr \<times> ustr) option" where
  "entity_pattern s =
     map_option (\<lambda>(group1, payload, group2, rest). (group1 @ group2, rest)) (entity_match s)"

definition strip_tags :: "ustr \<Rightarrow> ustr" where
  "strip_tags = re_sub tag_pattern"

definition strip_comments :: "ustr \<Rightarrow> ustr" where
  "strip_comments = re_sub comment_pattern"

definition blank_entities :: "ustr \<Rightarrow> ustr" where
  "blank_entities = re_sub entity_pattern"

text \<open>The three substitutions in the order the purge route applies them.\<close>

definition strip_metadata :: "ustr \<Rightarrow> ustr" where
  "strip_metadata content = blank_entities (strip_comments (strip_tags content))"

section \<open>Purge: \<open>admin_clear_metadata\<close>\<close>

record purge_request =
  uuid :: "string option"
  scope :: "string option"

text \<open>"Ensure model is loaded (if different from current)": an error response, or none.\<close>

definition ensure_loaded ::
  "('q, 'f) env \<Rightarrow> string \<Rightarrow> 'q world \<Rightarrow> 'f response option \<times> 'q world" where
  "ensure_loaded e target_uuid w =
     (if model_uuid (sess w) \<noteq> Some target_uuid then
        (let w1 = w\<lparr>sess := (reset (sess w))\<lparr>model_uuid := Some target_uuid\<rparr>\<rparr>;
             load_path = (if files w1 (Uploaded target_uuid) = None \<and> target_uuid = ''sample''
                          then SampleStep else Uploaded target_uuid)
         in if files w1 load_path = None then (Some (Err 404 ''Model not found on server''), w1)
            else (case load_step_xcaf e load_path w1 of
                    (Inl msg, s') \<Rightarrow>
                      (Some (Err 500 (''Failed to load model: '' @ msg)), w1\<lparr>sess := s'\<rparr>)
                  | (Inr faces, s') \<Rightarrow> (None, w1\<lparr>sess := s'\<rparr>)))
      else (None, w))"

text \<open>
  Step 1, database cleanup: the world, \<open>deleted_count\<close> and the message parts; \<open>None\<close>
  when the store call raises.
\<close>

definition db_cleanup ::
  "('q, 'f) env \<Rightarrow> string \<Rightarrow> 'q world \<Rightarrow> ('q world \<times> nat \<times> message_part list) option" where
  "db_cleanup e sc w =
     (if sc = ''db'' \<or> sc = ''all'' then
        (if sc = ''all'' then
           (case db_exec e ClearDatabase w of
              None \<Rightarrow> None
            | Some w' \<Rightarrow> Some (w', 0, [DeletedAllEntries]))
         else
           (let hashes_to_delete = map the (filter known_hash (face_hashes (sess w)))
            in case db_exec e (DeleteFaces hashes_to_delete) w of
                 None \<Rightarrow> None
               | Some w' \<Rightarrow>
                   Some (w', length hashes_to_delete, [DeletedEntries (length hashes_to_delete)])))
      else Some (w, 0, []))"

text \<open>Step 2, STEP file cleanup: an error response, or the message parts.\<close>

definition file_cleanup ::
  "('q, 'f) env \<Rightarrow> string \<Rightarrow> 'q world \<Rightarrow> ('f response + message_part list) \<times> 'q world" where
  "file_cleanup e target_uuid w =
     (let file_path = (if files w (Uploaded target_uuid) = None \<and> target_uuid = ''sample''
                       then SampleStep else Uploaded target_uuid)
      in case files w file_path of
           None \<Rightarrow>
             (Inl (Err 404 ''STEP file not found on server''), emit (Print (FileNotFound file_path)) w)
         | Some original \<Rightarrow>
             (let before_meta = extract_meta_from_step e original;
                  w1 = emit (Print (MetaBefore (map fst before_meta))) w;
                  content = strip_metadata original;
                  stripped_chars = int (length original) - int (length content);
                  w2 = emit (WriteFile file_path) (w1\<lparr>files := (files w1)(file_path \<mapsto> content)\<rparr>);
                  after_meta = extract_meta_from_step e content;
                  w3 = (if after_meta \<noteq> []
                        then emit (Print (MetaStillDetected (map fst after_meta))) w2
                        else emit (Print (FileIsClean stripped_chars)) w2)
              in (Inr [StrippedFile stripped_chars], w3)))"

text \<open>Step 3, "ALWAYS clear in-memory state".\<close>

definition clear_memory :: "string \<Rightarrow> 'q world \<Rightarrow> 'q world" where
  "clear_memory sc w =
     emit (Print (MemoryCleared sc)) (w\<lparr>sess := (sess w)\<lparr>face_meta := Map.empty\<rparr>\<rparr>)"

definition admin_clear_metadata ::
  "('q, 'f) env \<Rightarrow> purge_request \<Rightarrow> 'q world \<Rightarrow> 'f response \<times> 'q world" where
  "admin_clear_metadata e data w =
     (let target = uuid data;
          sc = (case scope data of None \<Rightarrow> ''all'' | Some s \<Rightarrow> s)
      in if target = None \<or> target = Some [] then (Err 400 ''UUID required'', w)
         else
           (let target_uuid = the target in
            case ensure_loaded e target_uuid w of
              (Some err, w1) \<Rightarrow> (err, w1)
            | (None, w1) \<Rightarrow>
                (case db_cleanup e sc w1 of
                   None \<Rightarrow> (Unhandled, w1)
                 | Some (w2, deleted_count, parts1) \<Rightarrow>
                     (case (if sc = ''file'' \<or> sc = ''all'' then file_cleanup e target_uuid w2
                            else (Inr [], w2)) of
                        (Inl err, w3) \<Rightarrow> (err, w3)
                      | (Inr parts2, w3) \<Rightarrow>
                          (Purged deleted_count (parts1 @ parts2 @ [ClearedMemory]),
                           clear_memory sc w3)))))"

section \<open>Vocabulary for the properties of the mutation routes\<close>

text \<open>
  A batch item is addressable when it names a face index within \<open>model.face_shapes\<close>, and
  persistable when moreover that face has a fingerprint that is present, not empty and not
  \<open>unknown\<close>. \<open>save_for w its c\<close> says that the store call \<open>c\<close> saves a non-empty record
  under the known fingerprint of a face some item of \<open>its\<close> names.
\<close>

definition addressable :: "'q world \<Rightarrow> 'v item \<Rightarrow> bool" where
  "addressable w it = (case fst it of None \<Rightarrow> False | Some i \<Rightarrow> \<not> out_of_range w i)"

definition persistable :: "'q world \<Rightarrow> 'v item \<Rightarrow> bool" where
  "persistable w it =
     (case fst it of
        None \<Rightarrow> False
      | Some i \<Rightarrow> \<not> out_of_range w i \<and> nat i < length (face_hashes (sess w)) \<and>
                  known_hash (face_hashes (sess w) ! nat i))"

definition save_for :: "'q world \<Rightarrow> 'v item list \<Rightarrow> db_call \<Rightarrow> bool" where
  "save_for w its c =
     (case c of
        SaveFaceMeta fh m raw \<Rightarrow>
          m \<noteq> [] \<and> fh \<noteq> [] \<and> fh \<noteq> ''unknown'' \<and>
          list_ex (\<lambda>it. persistable w it \<and> face_hashes (sess w) ! nat (the (fst it)) = Some fh) its
      | _ \<Rightarrow> False)"

text \<open>The request with every item dropped that names no face of the document.\<close>

definition only_addressable :: "'q world \<Rightarrow> 'v request \<Rightarrow> 'v request" where
  "only_addressable w data = data\<lparr>updates := Some (filter (addressable w) (items_of data))\<rparr>"

text \<open>One in-range item of \<open>set_thread\<close> / \<open>set_tolerance\<close>: the in-memory update.\<close>

definition attr_update :: "string \<Rightarrow> ((string \<times> string) list \<Rightarrow> attr) \<Rightarrow> int \<Rightarrow>
    (string \<times> string) list option \<Rightarrow> 'q world \<Rightarrow> 'q world" where
  "attr_update key mk i v w = (if truthy v then meta_set i key (mk (the v)) w else meta_pop i key w)"

text \<open>One item of \<open>set_color\<close> up to the store call: the colour on the label or shape, the record.\<close>

definition colored :: "int \<Rightarrow> string \<Rightarrow> 'q \<Rightarrow> 'q world \<Rightarrow> 'q world" where
  "colored i hex q w =
     meta_set i ''color'' (Color hex)
       (w\<lparr>sess := (sess w)\<lparr>color_tool := color_tool (sess w) @
          [(case face_labels (sess w) ! nat i of
              Label l \<Rightarrow> OnLabel l
            | _ \<Rightarrow> OnShape (face_shapes (sess w) ! nat i), q)]\<rparr>\<rparr>)"

text \<open>The store calls a request added, given the world before and after it.\<close>

definition new_calls :: "'q world \<Rightarrow> 'q world \<Rightarrow> db_call list" where
  "new_calls w w' = drop (length (db_log w)) (db_log w')"

text \<open>
  What a mutation route may do to the store: it only appends calls, each of them saves a
  non-empty record under the known fingerprint of a face named in the batch, there are no
  more of them than items with such a face, and a reported \<open>db_updated_count\<close> is their
  number.
\<close>

definition writes_known_only :: "'q world \<Rightarrow> 'v item list \<Rightarrow> 'f response \<times> 'q world \<Rightarrow> bool" where
  "writes_known_only w its out =
     (let new = new_calls w (snd out)
      in db_log (snd out) = db_log w @ new \<and>
         list_all (save_for w its) new \<and>
         length new \<le> length (filter (persistable w) its) \<and>
         (case fst out of Updated n \<Rightarrow> n = length new | _ \<Rightarrow> True))"

text \<open>A store call that is not the save of an empty record.\<close>

definition no_empty_record :: "db_call \<Rightarrow> bool" where
  "no_empty_record c = (case c of SaveFaceMeta fh m raw \<Rightarrow> m \<noteq> [] | _ \<Rightarrow> True)"










section \<open>A small document\<close>

text \<open>
  Six faces, two of them cylinders of radius 5; face 2 has no fingerprint, face 3 the
  fingerprint \<open>unknown\<close>, face 4 an empty one.
\<close>

definition demo_shapes :: "shape list" where
  "demo_shapes =
     [OtherFace, CylinderFace (Finite 5), OtherFace, OtherFace, CylinderFace (Finite 5), OtherFace]"

definition demo_session :: "string session" where
  "demo_session =
     \<lparr>doc = Some 1, face_shapes = demo_shapes,
      face_labels = [NoLabel, Label 7, NullLabel, NoLabel, NoLabel, NoLabel],
      face_hashes = [Some ''a1'', Some ''b2'', None, Some ''unknown'', Some [], Some ''f6''],
      face_raws = [''plane'', ''cylinder'', ''plane'', ''plane'', ''cylinder'', ''plane''],
      face_meta = Map.empty, model_uuid = Some ''m1'', original_filename = Some ''part'',
      color_tool = []\<rparr>"

text \<open>
  Collaborators for the examples: a loader that fails on a missing or empty file and leaves
  the session alone when it does, a store that is always available, a colour parser that
  accepts \<open>#\<close> followed by six characters.
\<close>

definition demo_load :: "path \<Rightarrow> string world \<Rightarrow> (string + nat) \<times> string session" where
  "demo_load p w =
     (case files w p of
        None \<Rightarrow> (Inl ''cannot open file'', sess w)
      | Some c \<Rightarrow>
          if c = [] then (Inl ''no entities'', sess w)
          else (Inr (length demo_shapes),
                demo_session\<lparr>model_uuid := model_uuid (sess w),
                              original_filename := original_filename (sess w)\<rparr>))"

definition demo_env :: "(ustr \<Rightarrow> (string \<times> meta) list) \<Rightarrow> (string, nat) env" where
  "demo_env extract =
     \<lparr>hex_to_quantity = (\<lambda>h. if length h = 7 \<and> hd h = CHR ''#'' then Some h else None),
      db_ok = (\<lambda>c log. True),
      load_step_xcaf = demo_load,
      export_step_xcaf = (\<lambda>s fs. (Inr (''export.step'', ''application/step'', []), s, fs)),
      extract_meta_from_step = extract,
      splitext = (\<lambda>n. (takeWhile (\<lambda>c. c \<noteq> CHR ''.'') n, dropWhile (\<lambda>c. c \<noteq> CHR ''.'') n)),
      lower = (\<lambda>n. n)\<rparr>"

definition demo_world :: "string world" where
  "demo_world = \<lparr>sess = demo_session, files = [Uploaded ''m1'' \<mapsto> lit ''DATA;''], trace = []\<rparr>"

definition m6_thread :: "(string \<times> string) list" where
  "m6_thread = [(''type'', ''M (ISO Metric)''), (''size'', ''M6''), (''pitch'', ''1.0'')]"

text \<open>A thread on face 1, and then its removal.\<close>

definition thread_on_1 :: "(string \<times> string) list request" where
  "thread_on_1 = \<lparr>updates = None, face_id = Some 1, val = Some m6_thread\<rparr>"

definition thread_off_1 :: "(string \<times> string) list request" where
  "thread_off_1 = \<lparr>updates = None, face_id = Some 1, val = None\<rparr>"

definition world_with_thread :: "string world" where
  "world_with_thread = snd (set_thread (demo_env (\<lambda>t. [])) thread_on_1 demo_world)"

definition world_without_thread :: "string world" where
  "world_without_thread = snd (set_thread (demo_env (\<lambda>t. [])) thread_off_1 world_with_thread)"

text \<open>A batch with a bad index (9), a face without usable fingerprint (3) and two good faces.\<close>

definition mixed_batch :: "(string \<times> string) list request" where
  "mixed_batch =
     \<lparr>updates = Some [(Some 9, Some m6_thread), (Some 3, Some m6_thread), (None, Some m6_thread),
                      (Some 1, Some m6_thread), (Some (- 1), Some m6_thread), (Some 5, Some m6_thread)],
      face_id = None, val = None\<rparr>"

definition color_batch :: "string request" where
  "color_batch =
     \<lparr>updates = Some [(Some 6, Some ''#00FF00''), (Some 3, Some ''#FF0000''), (Some 0, Some ''red''),
                      (Some 1, Some ''#FF0000'')],
      face_id = None, val = None\<rparr>"




section \<open>Vocabulary for purge and load\<close>

text \<open>The scope a purge request works with: \<open>data.get("scope", "all")\<close>.\<close>

definition resolved_scope :: "purge_request \<Rightarrow> string" where
  "resolved_scope data = (case scope data of None \<Rightarrow> ''all'' | Some s \<Rightarrow> s)"

text \<open>A session that holds nothing of a document; the identifier is not looked at.\<close>

definition no_document :: "'q session \<Rightarrow> bool" where
  "no_document s \<longleftrightarrow>
     doc s = None \<and> face_shapes s = [] \<and> face_labels s = [] \<and> face_hashes s = [] \<and>
     face_raws s = [] \<and> face_meta s = Map.empty \<and> color_tool s = []"

text \<open>The world in which \<open>upload\<close> and \<open>get_model\<close> call the loader.\<close>

definition staged_upload :: "('q, 'f) env \<Rightarrow> string \<Rightarrow> string \<Rightarrow> ustr \<Rightarrow> 'q world \<Rightarrow> 'q world" where
  "staged_upload e fresh filename content w =
     (let w1 = emit (WriteFile (Uploaded fresh)) (w\<lparr>files := (files w)(Uploaded fresh \<mapsto> content)\<rparr>)
      in w1\<lparr>sess := (sess w1)\<lparr>original_filename := Some (fst (splitext e filename)),
                                model_uuid := Some fresh\<rparr>\<rparr>)"

definition staged_get_model :: "string \<Rightarrow> 'q world \<Rightarrow> 'q world" where
  "staged_get_model uuid_str w = w\<lparr>sess := (reset (sess w))\<lparr>model_uuid := Some uuid_str\<rparr>\<rparr>"

text \<open>
  A loader that fails the way a load can fail partway: it has the document and the faces
  in the session when reading the stored fingerprints raises.
\<close>

definition partial_load :: "path \<Rightarrow> string world \<Rightarrow> (string + nat) \<times> string session" where
  "partial_load p w =
     (Inl ''store unavailable'',
      (sess w)\<lparr>doc := Some 1, face_shapes := demo_shapes,
                face_hashes := [Some ''a1'', Some ''b2'']\<rparr>)"

definition partial_env :: "(string, nat) env" where
  "partial_env = (demo_env (\<lambda>t. []))\<lparr>load_step_xcaf := partial_load\<rparr>"

definition purge_db :: purge_request where
  "purge_db = \<lparr>uuid = Some ''m1'', scope = Some ''db''\<rparr>"

definition purge_bogus :: purge_request where
  "purge_bogus = \<lparr>uuid = Some ''m1'', scope = Some ''bogus''\<rparr>"

section \<open>Vocabulary for hole detection\<close>













section \<open>Vocabulary for the stripping of entities\<close>

text \<open>
  The text of a tagged entity: keyword, opening parenthesis, quoted tag, comma, quoted
  payload, closing parenthesis, with the white space \<open>ws1\<close> to \<open>ws5\<close> between them.
\<close>

definition entity_text :: "ustr \<Rightarrow> ustr \<Rightarrow> ustr \<Rightarrow> ustr \<Rightarrow> ustr \<Rightarrow> ustr \<Rightarrow> ustr \<Rightarrow> ustr" where
  "entity_text ws1 ws2 tag ws3 ws4 payload ws5 =
     keyword @ ws1 @ lit ''('' @ ws2 @ [quote] @ tag @ [quote] @ ws3 @ lit '','' @ ws4 @
     [quote] @ payload @ [quote] @ ws5 @ lit '')''"

text \<open>
  A text cut into segments: stretches that are kept as they are, and tagged entities whose
  payload is blanked. \<open>before\<close> is the text of a segment in the input, \<open>after\<close> in the output.
\<close>

datatype segment =
    Kept ustr
  | Blanked (ws1: ustr) (ws2: ustr) (tag: ustr) (ws3: ustr) (ws4: ustr) (payload: ustr) (ws5: ustr)

fun before :: "segment \<Rightarrow> ustr" where
  "before (Kept t) = t"
| "before (Blanked a b tg c d p f) = entity_text a b tg c d p f"

fun after :: "segment \<Rightarrow> ustr" where
  "after (Kept t) = t"
| "after (Blanked a b tg c d p f) = entity_text a b tg c d [] f"

fun tagged_entity :: "segment \<Rightarrow> bool" where
  "tagged_entity (Kept t) = True"
| "tagged_entity (Blanked a b tg c d p f) =
     (list_all is_space a \<and> list_all is_space b \<and> list_all is_space c \<and> list_all is_space d \<and>
      list_all is_space f \<and> (tg = lit ''SVFM'' \<or> tg = lit ''StepViewerFaceMetadata'') \<and>
      quote \<notin> set p)"

text \<open>
  A text starts with a tagged entity when its beginning is the text of one: the keyword, the
  parenthesis, the tag \<open>SVFM\<close> or \<open>StepViewerFaceMetadata\<close> in quotes, the comma, a payload
  without a quote in quotes and the closing parenthesis, with white space only between them.
\<close>

definition starts_with_entity :: "ustr \<Rightarrow> bool" where
  "starts_with_entity t \<longleftrightarrow>
     (\<exists>a b tg c d p f rest.
        tagged_entity (Blanked a b tg c d p f) \<and> t = entity_text a b tg c d p f @ rest)"

text \<open>No tagged entity starts at a position inside the stretch \<open>pre\<close> of the text \<open>pre @ t\<close>.\<close>

definition no_entity_within :: "ustr \<Rightarrow> ustr \<Rightarrow> bool" where
  "no_entity_within pre t \<longleftrightarrow>
     (\<forall>u v. pre = u @ v \<and> v \<noteq> [] \<longrightarrow> \<not> starts_with_entity (v @ t))"

section \<open>Embedding and extraction\<close>








text \<open>
  Modelled from the spec: a file text with embedded metadata is the text of the exporter
  (the stretches \<open>Host\<close>) with, in any order and number, a descriptive entity tagged \<open>SVFM\<close>
  that holds the payload, a bracketed tag inside a description that holds its transport
  encoding, and a comment block between the two sentinels that holds the payload.
\<close>

datatype piece =
    Host ustr
  | EntityField ustr
  | DescriptionTag ustr
  | CommentBlock ustr

fun render :: "piece \<Rightarrow> ustr" where
  "render (Host h) = h"
| "render (EntityField p) = entity_text [] [] (lit ''SVFM'') [] [] p []"
| "render (DescriptionTag b) = tag_open @ b @ tag_close"
| "render (CommentBlock p) = comment_open @ p @ comment_close"

definition embedded :: "piece list \<Rightarrow> ustr" where
  "embedded ps = concat (map render ps)"








text \<open>The opening marker \<open>op\<close> begins nowhere in \<open>x\<close>, whatever text follows \<open>x\<close>.\<close>

definition never_opens :: "ustr \<Rightarrow> ustr \<Rightarrow> bool" where
  "never_opens op x \<longleftrightarrow> (\<forall>i<length x. \<forall>t. strip_prefix op (drop i x @ t) = None)"









text \<open>
  Two descriptive entities: one with another tag, one tagged \<open>StepViewerFaceMetadata\<close>
  and written with white space between the tokens.
\<close>

definition two_entities :: ustr where
  "two_entities =
     lit ''#8=DESCRIPTIVE_REPRESENTATION_ITEM('' @ [quote] @ lit ''name'' @ [quote] @ lit '','' @
     [quote] @ lit ''keep me'' @ [quote] @ lit '');'' @ [10] @
     lit ''#9=DESCRIPTIVE_REPRESENTATION_ITEM ( '' @ [quote] @ lit ''StepViewerFaceMetadata'' @
     [quote] @ lit '' , '' @ [quote] @ lit ''abc'' @ [quote] @ lit '' ) ;''"

definition two_entities_blanked :: ustr where
  "two_entities_blanked =
     lit ''#8=DESCRIPTIVE_REPRESENTATION_ITEM('' @ [quote] @ lit ''name'' @ [quote] @ lit '','' @
     [quote] @ lit ''keep me'' @ [quote] @ lit '');'' @ [10] @
     lit ''#9=DESCRIPTIVE_REPRESENTATION_ITEM ( '' @ [quote] @ lit ''StepViewerFaceMetadata'' @
     [quote] @ lit '' , '' @ [quote] @ [quote] @ lit '' ) ;''"

section \<open>Effects and frames\<close>

lemma db_calls_append: "db_calls (xs @ ys) = db_calls xs @ db_calls ys"
  by (induction xs rule: db_calls.induct) simp_all

lemma emit_simps [simp]:
  "sess (emit x w) = sess w"
  "files (emit x w) = files w"
  "trace (emit x w) = trace w @ [x]"
  by (simp_all add: emit_def)

lemma db_log_emit [simp]:
  "db_log (emit (DbCall c) w) = db_log w @ [c]"
  "db_log (emit (WriteFile p) w) = db_log w"
  "db_log (emit (RemoveFile p) w) = db_log w"
  "db_log (emit (Print l) w) = db_log w"
  by (simp_all add: db_log_def db_calls_append)

lemma db_log_upd [simp]:
  "db_log (w\<lparr>sess := s\<rparr>) = db_log w"
  "db_log (w\<lparr>files := f\<rparr>) = db_log w"
  by (simp_all add: db_log_def)

section \<open>Export leaves the store alone\<close>

text \<open>
  C8. An export, whether the exporter returns a file or raises, makes no call into the
  store: the sequence of store calls, and with it every lookup in the store, is the same
  after \<open>export_step\<close> as before; nothing at all is added to the trace of effects.
\<close>

theorem export_step_keeps_store:
  "db_log (snd (export_step e w)) = db_log w \<and>
   trace (snd (export_step e w)) = trace w \<and>
   store_get (snd (export_step e w)) fh = store_get w fh"
proof -
  have t: "trace (snd (export_step e w)) = trace w"
    by (simp add: export_step_def split: prod.splits sum.splits option.splits)
  then have "db_log (snd (export_step e w)) = db_log w"
    by (simp add: db_log_def)
  with t show ?thesis
    by (simp add: store_get_def)
qed

section \<open>The mutation routes\<close>

lemma items_only_addressable [simp]:
  "items_of (only_addressable w data) = filter (addressable w) (items_of data)"
  by (simp add: only_addressable_def items_of_def)

lemma meta_set_frame [simp]:
  "face_shapes (sess (meta_set i k v w)) = face_shapes (sess w)"
  "face_hashes (sess (meta_set i k v w)) = face_hashes (sess w)"
  "face_raws (sess (meta_set i k v w)) = face_raws (sess w)"
  "doc (sess (meta_set i k v w)) = doc (sess w)"
  "trace (meta_set i k v w) = trace w"
  "files (meta_set i k v w) = files w"
  by (simp_all add: meta_set_def)

lemma meta_pop_frame [simp]:
  "face_shapes (sess (meta_pop i k w)) = face_shapes (sess w)"
  "face_hashes (sess (meta_pop i k w)) = face_hashes (sess w)"
  "face_raws (sess (meta_pop i k w)) = face_raws (sess w)"
  "doc (sess (meta_pop i k w)) = doc (sess w)"
  "trace (meta_pop i k w) = trace w"
  "files (meta_pop i k w) = files w"
  by (simp_all add: meta_pop_def Let_def split: option.splits)

lemma db_log_meta [simp]:
  "db_log (meta_set i k v w) = db_log w"
  "db_log (meta_pop i k w) = db_log w"
  by (simp_all add: db_log_def)

text \<open>What one run of the persist block does.\<close>

lemma persist_cases:
  assumes "persist e i w = Some (w', k)" and "0 \<le> i"
  shows "sess w' = sess w \<and> files w' = files w \<and>
         ((k = 0 \<and> w' = w) \<or>
          (k = 1 \<and> nat i < length (face_hashes (sess w)) \<and>
           known_hash (face_hashes (sess w) ! nat i) \<and>
           (\<exists>m raw. m \<noteq> [] \<and> face_meta (sess w) i = Some m \<and>
              db_log w' = db_log w @ [SaveFaceMeta (the (face_hashes (sess w) ! nat i)) m raw])))"
  using assms
  by (auto simp: persist_def db_exec_def Let_def split: if_splits option.splits)

lemma persist_unknown:
  assumes "\<not> (nat i < length (face_hashes (sess w)) \<and> known_hash (face_hashes (sess w) ! nat i))"
    and "0 \<le> i"
  shows "persist e i w = Some (w, 0)"
  using assms by (auto simp: persist_def Let_def)


lemma addressable_cong:
  "face_shapes (sess w') = face_shapes (sess w) \<Longrightarrow> addressable w' = addressable w"
  by (auto simp: addressable_def fun_eq_iff out_of_range_def split: option.splits)

lemma persistable_cong:
  "face_shapes (sess w') = face_shapes (sess w) \<Longrightarrow> face_hashes (sess w') = face_hashes (sess w)
   \<Longrightarrow> persistable w' = persistable w"
  by (auto simp: persistable_def fun_eq_iff out_of_range_def split: option.splits)

lemma save_for_cong:
  assumes "face_shapes (sess w') = face_shapes (sess w)"
    and "face_hashes (sess w') = face_hashes (sess w)"
  shows "save_for w' = (save_for w :: 'v item list \<Rightarrow> db_call \<Rightarrow> bool)"
proof (intro ext)
  fix its :: "'v item list" and c
  have H: "persistable w' = (persistable w :: 'v item \<Rightarrow> bool)"
    using assms by (rule persistable_cong)
  show "save_for w' its c = save_for w its c"
    unfolding save_for_def H assms(2) ..
qed

lemma not_persistable [simp]:
  "\<not> persistable w (None, v)"
  "out_of_range w i \<Longrightarrow> \<not> persistable w (Some i, v)"
  by (simp_all add: persistable_def)

lemma save_for_Cons: "save_for w its c \<Longrightarrow> save_for w (it # its) c"
  by (auto simp: save_for_def split: db_call.splits)

lemma list_all_save_for_Cons: "list_all (save_for w its) cs \<Longrightarrow> list_all (save_for w (it # its)) cs"
  by (induction cs) (auto intro: save_for_Cons)

lemma attr_update_frame [simp]:
  "face_shapes (sess (attr_update key mk i v w)) = face_shapes (sess w)"
  "face_hashes (sess (attr_update key mk i v w)) = face_hashes (sess w)"
  "db_log (attr_update key mk i v w) = db_log w"
  "trace (attr_update key mk i v w) = trace w"
  by (simp_all add: attr_update_def)

lemma persist_step_log:
  assumes p: "persist e i w1 = Some (w2, k)" and i: "\<not> out_of_range w i"
    and fs: "face_shapes (sess w1) = face_shapes (sess w)"
    and fh: "face_hashes (sess w1) = face_hashes (sess w)"
  shows "\<exists>new. db_log w2 = db_log w1 @ new \<and> length new = k \<and>
           list_all (save_for w ((Some i, v) # rest)) new \<and>
           k \<le> (if persistable w (Some i, v) then 1 else 0) \<and>
           face_shapes (sess w2) = face_shapes (sess w) \<and>
           face_hashes (sess w2) = face_hashes (sess w)"
proof -
  have "0 \<le> i" using i by (simp add: out_of_range_def)
  from persist_cases [OF p this] consider
    (none) "k = 0" "w2 = w1"
  | (saved) m raw where "k = 1" "nat i < length (face_hashes (sess w1))"
      "known_hash (face_hashes (sess w1) ! nat i)" "m \<noteq> []"
      "db_log w2 = db_log w1 @ [SaveFaceMeta (the (face_hashes (sess w1) ! nat i)) m raw]"
      "sess w2 = sess w1"
    by blast
  then show ?thesis
  proof cases
    case none
    then show ?thesis using fs fh by simp
  next
    case saved
    then obtain h where h: "face_hashes (sess w) ! nat i = Some h" "h \<noteq> []" "h \<noteq> ''unknown''"
      using fh by (auto simp: known_hash_def split: option.splits)
    have pers: "persistable w (Some i, v)"
      using saved i fh by (simp add: persistable_def)
    have "save_for w ((Some i, v) # rest) (SaveFaceMeta (the (face_hashes (sess w1) ! nat i)) m raw)"
      using saved h pers fh by (simp add: save_for_def)
    then show ?thesis using saved pers fs fh by simp
  qed
qed

lemma set_attr_items_log:
  assumes "set_attr_items e key mk its w n = (w', r)"
  shows "\<exists>new. db_log w' = db_log w @ new \<and> list_all (save_for w its) new \<and>
           length new \<le> length (filter (persistable w) its) \<and>
           (\<forall>n'. r = Some n' \<longrightarrow> n' = n + length new)"
  using assms
proof (induction its arbitrary: w n)
  case Nil
  then show ?case by auto
next
  case (Cons it its)
  obtain fid v where it: "it = (fid, v)" by (cases it)
  show ?case
  proof (cases fid)
    case None
    with Cons.prems it have "set_attr_items e key mk its w n = (w', r)" by simp
    from Cons.IH [OF this] obtain new where
      "db_log w' = db_log w @ new" "list_all (save_for w its) new"
      "length new \<le> length (filter (persistable w) its)" "\<forall>n'. r = Some n' \<longrightarrow> n' = n + length new"
      by blast
    then show ?thesis using it None
      by (intro exI [of _ new]) (auto intro: list_all_save_for_Cons)
  next
    case (Some i)
    show ?thesis
    proof (cases "out_of_range w i")
      case True
      with Cons.prems it Some have "set_attr_items e key mk its w n = (w', r)" by simp
      from Cons.IH [OF this] obtain new where
        "db_log w' = db_log w @ new" "list_all (save_for w its) new"
        "length new \<le> length (filter (persistable w) its)" "\<forall>n'. r = Some n' \<longrightarrow> n' = n + length new"
        by blast
      then show ?thesis using it Some True
        by (intro exI [of _ new]) (auto intro: list_all_save_for_Cons)
    next
      case False
      let ?w1 = "attr_update key mk i v w"
      show ?thesis
      proof (cases "persist e i ?w1")
        case None
        with Cons.prems it Some False have "w' = ?w1" "r = None"
          by (simp_all add: attr_update_def Let_def)
        then show ?thesis by (intro exI [of _ "[]"]) simp
      next
        case (Some a)
        then obtain w2 k where p: "persist e i ?w1 = Some (w2, k)" by (cases a) auto
        with Cons.prems it \<open>fid = Some i\<close> False
        have rec: "set_attr_items e key mk its w2 (n + k) = (w', r)"
          by (simp add: attr_update_def Let_def)
        from persist_step_log [OF p False, of v its] obtain new1 where n1:
          "db_log w2 = db_log w @ new1" "length new1 = k"
          "list_all (save_for w ((Some i, v) # its)) new1"
          "k \<le> (if persistable w (Some i, v) then 1 else 0)"
          "face_shapes (sess w2) = face_shapes (sess w)"
          "face_hashes (sess w2) = face_hashes (sess w)"
          by auto
        from Cons.IH [OF rec] obtain new2 where n2:
          "db_log w' = db_log w2 @ new2" "list_all (save_for w2 its) new2"
          "length new2 \<le> length (filter (persistable w2) its)"
          "\<forall>n'. r = Some n' \<longrightarrow> n' = n + k + length new2"
          by blast
        have sf: "save_for w2 = (save_for w :: (string \<times> string) list item list \<Rightarrow> db_call \<Rightarrow> bool)"
          using n1(5,6) by (rule save_for_cong)
        have pe: "persistable w2 = (persistable w :: (string \<times> string) list item \<Rightarrow> bool)"
          using n1(5,6) by (rule persistable_cong)
        have a: "db_log w' = db_log w @ (new1 @ new2)"
          using n1(1) n2(1) by simp
        have b: "list_all (save_for w (it # its)) (new1 @ new2)"
          using n1(3) n2(2) it \<open>fid = Some i\<close> sf
          by (simp add: list_all_save_for_Cons)
        have c: "length (new1 @ new2) \<le> length (filter (persistable w) (it # its))"
          using n1(2,4) n2(3) it \<open>fid = Some i\<close> pe by (simp split: if_splits)
        have d: "\<forall>n'. r = Some n' \<longrightarrow> n' = n + length (new1 @ new2)"
          using n2(4) n1(2) by (auto simp: add.assoc)
        from a b c d show ?thesis by blast
      qed
    qed
  qed
qed

lemma addressable_simps [simp]:
  "\<not> addressable w (None, v)"
  "addressable w (Some i, v) \<longleftrightarrow> \<not> out_of_range w i"
  by (simp_all add: addressable_def)


lemma colored_frame [simp]:
  "face_shapes (sess (colored i hex q w)) = face_shapes (sess w)"
  "face_hashes (sess (colored i hex q w)) = face_hashes (sess w)"
  "doc (sess (colored i hex q w)) = doc (sess w)"
  "db_log (colored i hex q w) = db_log w"
  "trace (colored i hex q w) = trace w"
  by (simp_all add: colored_def)

lemma color_body_unfold:
  "color_body e i hex w =
     (case hex_to_quantity e hex of
        None \<Rightarrow> None
      | Some q \<Rightarrow>
          if nat i < length (face_labels (sess w)) then
            (case persist e i (colored i hex q w) of
               None \<Rightarrow> Some (colored i hex q w, None)
             | Some (w3, k) \<Rightarrow> Some (w3, Some k))
          else None)"
  unfolding color_body_def colored_def Let_def by (rule refl)

lemma color_body_cases:
  assumes "color_body e i hex w = Some (w', r)"
  shows "\<exists>w2. face_shapes (sess w2) = face_shapes (sess w) \<and>
               face_hashes (sess w2) = face_hashes (sess w) \<and>
               db_log w2 = db_log w \<and>
               ((r = None \<and> w' = w2) \<or> (\<exists>k. r = Some k \<and> persist e i w2 = Some (w', k)))"
proof -
  from assms obtain q where q: "hex_to_quantity e hex = Some q"
    and r: "(case persist e i (colored i hex q w) of
               None \<Rightarrow> Some (colored i hex q w, None)
             | Some (w3, k) \<Rightarrow> Some (w3, Some k)) = Some (w', r)"
    by (auto simp: color_body_unfold split: option.splits if_splits)
  show ?thesis
  proof (cases "persist e i (colored i hex q w)")
    case None
    with r have "r = None" "w' = colored i hex q w" by simp_all
    then show ?thesis by (intro exI [of _ "colored i hex q w"]) simp
  next
    case (Some a)
    then obtain w3 k where "persist e i (colored i hex q w) = Some (w3, k)" by (cases a) auto
    with r show ?thesis by (intro exI [of _ "colored i hex q w"]) auto
  qed
qed

lemma set_color_items_log:
  assumes "set_color_items e its w n = (w', n')"
  shows "\<exists>new. db_log w' = db_log w @ new \<and> list_all (save_for w its) new \<and>
           length new \<le> length (filter (persistable w) its) \<and> n' = n + length new"
  using assms
proof (induction its arbitrary: w n)
  case Nil
  then show ?case by auto
next
  case (Cons it its)
  obtain fid hx where it: "it = (fid, hx)" by (cases it)
  have skip: ?case if rec: "set_color_items e its w n = (w', n')"
    and np: "\<not> persistable w it \<or> True"
  proof -
    from Cons.IH [OF rec] obtain new where
      "db_log w' = db_log w @ new" "list_all (save_for w its) new"
      "length new \<le> length (filter (persistable w) its)" "n' = n + length new"
      by blast
    then show ?thesis
      by (intro exI [of _ new]) (auto intro: list_all_save_for_Cons)
  qed
  show ?case
  proof (cases "\<exists>i hex. fid = Some i \<and> hx = Some hex \<and> \<not> out_of_range w i \<and> color_body e i hex w \<noteq> None")
    case False
    then have "set_color_items e (it # its) w n = set_color_items e its w n"
      using it by (auto split: option.splits)
    with Cons.prems show ?thesis using skip by simp
  next
    case True
    then obtain i hex a where f: "fid = Some i" "hx = Some hex" "\<not> out_of_range w i"
      and cb: "color_body e i hex w = Some a" by auto
    obtain w1 r where a: "a = (w1, r)" by (cases a)
    from color_body_cases [OF cb [unfolded a]] obtain w2 where w2:
      "face_shapes (sess w2) = face_shapes (sess w)"
      "face_hashes (sess w2) = face_hashes (sess w)"
      "db_log w2 = db_log w"
      "(r = None \<and> w1 = w2) \<or> (\<exists>k. r = Some k \<and> persist e i w2 = Some (w1, k))"
      by blast
    obtain k where rec: "set_color_items e its w1 (n + k) = (w', n')"
      and k: "(r = None \<and> k = 0 \<and> w1 = w2) \<or> (r = Some k \<and> persist e i w2 = Some (w1, k))"
      using Cons.prems it f cb a w2(4) by (cases r) auto
    have "\<exists>new1. db_log w1 = db_log w2 @ new1 \<and> length new1 = k \<and>
           list_all (save_for w ((Some i, hx) # its)) new1 \<and>
           k \<le> (if persistable w (Some i, hx) then 1 else 0) \<and>
           face_shapes (sess w1) = face_shapes (sess w) \<and>
           face_hashes (sess w1) = face_hashes (sess w)"
    proof (cases r)
      case None
      with k w2 show ?thesis by simp
    next
      case (Some k')
      with k have "persist e i w2 = Some (w1, k)" by simp
      from persist_step_log [OF this f(3) w2(1,2)] show ?thesis .
    qed
    then obtain new1 where n1:
      "db_log w1 = db_log w2 @ new1" "length new1 = k"
      "list_all (save_for w ((Some i, hx) # its)) new1"
      "k \<le> (if persistable w (Some i, hx) then 1 else 0)"
      "face_shapes (sess w1) = face_shapes (sess w)"
      "face_hashes (sess w1) = face_hashes (sess w)"
      by blast
    from Cons.IH [OF rec] obtain new2 where n2:
      "db_log w' = db_log w1 @ new2" "list_all (save_for w1 its) new2"
      "length new2 \<le> length (filter (persistable w1) its)"
      "n' = n + k + length new2"
      by blast
    have sf: "save_for w1 = (save_for w :: string item list \<Rightarrow> db_call \<Rightarrow> bool)"
      using n1(5,6) by (rule save_for_cong)
    have pe: "persistable w1 = (persistable w :: string item \<Rightarrow> bool)"
      using n1(5,6) by (rule persistable_cong)
    have a': "db_log w' = db_log w @ (new1 @ new2)"
      using n1(1) n2(1) w2(3) by simp
    have b: "list_all (save_for w (it # its)) (new1 @ new2)"
      using n1(3) n2(2) it f sf by (simp add: list_all_save_for_Cons)
    have c: "length (new1 @ new2) \<le> length (filter (persistable w) (it # its))"
      using n1(2,4) n2(3) it f pe by (simp split: if_splits)
    have d: "n' = n + length (new1 @ new2)"
      using n2(4) n1(2) by simp
    from a' b c d show ?thesis by blast
  qed
qed


section \<open>What the mutation routes write to the store\<close>

lemmas demo_defs = demo_env_def demo_world_def demo_session_def demo_shapes_def demo_load_def
  m6_thread_def thread_on_1_def thread_off_1_def mixed_batch_def color_batch_def
lemmas route_defs = set_thread_def set_tolerance_def set_attr_def set_color_def items_of_def
  out_of_range_def meta_set_def meta_pop_def persist_def db_exec_def known_hash_def
  color_body_def truthy_def thread_attr_def tolerance_attr_def dict_get_def emit_def db_log_def

lemma wwt: "world_with_thread =
   \<lparr>sess = demo_session\<lparr>face_meta := [1 \<mapsto> [(''thread'', Thread ''M (ISO Metric)'' ''M6'' ''1.0'' [])]]\<rparr>,
    files = [Uploaded ''m1'' \<mapsto> lit ''DATA;''],
    trace = [DbCall (SaveFaceMeta ''b2'' [(''thread'', Thread ''M (ISO Metric)'' ''M6'' ''1.0'' [])] (Some ''cylinder''))]\<rparr>"
  by (simp add: world_with_thread_def demo_defs route_defs Let_def)

lemma wwot: "world_without_thread =
   \<lparr>sess = demo_session,
    files = [Uploaded ''m1'' \<mapsto> lit ''DATA;''],
    trace = [DbCall (SaveFaceMeta ''b2'' [(''thread'', Thread ''M (ISO Metric)'' ''M6'' ''1.0'' [])] (Some ''cylinder''))]\<rparr>"
  unfolding world_without_thread_def wwt
  by (simp add: demo_defs route_defs Let_def)


lemma new_callsI:
  assumes "db_log w' = db_log w @ new"
  shows "new_calls w w' = new"
  using assms by (simp add: new_calls_def)

lemma set_attr_writes:
  "writes_known_only w (items_of data) (set_attr e key mk data w)"
proof (cases "doc (sess w) = None")
  case True
  then show ?thesis
    by (simp add: set_attr_def writes_known_only_def new_calls_def)
next
  case False
  obtain w' r where run: "set_attr_items e key mk (items_of data) w 0 = (w', r)"
    by (cases "set_attr_items e key mk (items_of data) w 0")
  from set_attr_items_log [OF run] obtain new where new:
    "db_log w' = db_log w @ new" "list_all (save_for w (items_of data)) new"
    "length new \<le> length (filter (persistable w) (items_of data))"
    "\<forall>n'. r = Some n' \<longrightarrow> n' = 0 + length new"
    by blast
  have out: "set_attr e key mk data w = (case r of Some n \<Rightarrow> Updated n | None \<Rightarrow> Unhandled, w')"
    using False run by (simp add: set_attr_def split: option.splits)
  show ?thesis
    unfolding out writes_known_only_def
    using new by (cases r) (simp_all add: new_callsI [OF new(1)])
qed

lemma set_color_writes:
  "writes_known_only w (items_of data) (set_color e data w)"
proof (cases "doc (sess w) = None")
  case True
  then show ?thesis
    by (simp add: set_color_def writes_known_only_def new_calls_def)
next
  case False
  obtain w' n where run: "set_color_items e (items_of data) w 0 = (w', n)"
    by (cases "set_color_items e (items_of data) w 0")
  from set_color_items_log [OF run] obtain new where new:
    "db_log w' = db_log w @ new" "list_all (save_for w (items_of data)) new"
    "length new \<le> length (filter (persistable w) (items_of data))"
    "n = 0 + length new"
    by blast
  have out: "set_color e data w = (Updated n, w')"
    using False run by (simp add: set_color_def)
  show ?thesis
    unfolding out writes_known_only_def
    using new by (simp add: new_callsI [OF new(1)])
qed

text \<open>
  C5. Whatever batch \<open>set_color\<close>, \<open>set_thread\<close> or \<open>set_tolerance\<close> is given, every call it
  makes into the store saves a record under a fingerprint that is present, not empty and
  not \<open>unknown\<close>, and that belongs to a face named in the batch; the number of calls is at
  most the number of items naming such a face and is the reported \<open>db_updated_count\<close>. So
  a face whose fingerprint is absent, empty or \<open>unknown\<close> causes no write and no increment,
  and a batch of such faces only leaves the store as it was.
\<close>

theorem unknown_fingerprint_never_persisted:
  "writes_known_only w (items_of cdata) (set_color e cdata w) \<and>
   writes_known_only w (items_of data) (set_thread e data w) \<and>
   writes_known_only w (items_of data) (set_tolerance e data w) \<and>
   (filter (persistable w) (items_of cdata) = [] \<longrightarrow>
      db_log (snd (set_color e cdata w)) = db_log w) \<and>
   (filter (persistable w) (items_of data) = [] \<longrightarrow>
      db_log (snd (set_thread e data w)) = db_log w \<and>
      db_log (snd (set_tolerance e data w)) = db_log w)"
proof -
  have c: "writes_known_only w (items_of cdata) (set_color e cdata w)"
    by (rule set_color_writes)
  have t: "writes_known_only w (items_of data) (set_thread e data w)"
    unfolding set_thread_def by (rule set_attr_writes)
  have l: "writes_known_only w (items_of data) (set_tolerance e data w)"
    unfolding set_tolerance_def by (rule set_attr_writes)
  have none: "db_log (snd out) = db_log w"
    if "writes_known_only w its out" "filter (persistable w) its = []"
    for its :: "'v item list" and out :: "'b response \<times> 'a world"
    using that by (simp add: writes_known_only_def Let_def)
  from c t l none [OF c] none [OF t] none [OF l] show ?thesis by blast
qed

theorem unknown_fingerprint_never_persisted_witness:
  "filter (persistable demo_world) (items_of (\<lparr>updates = Some [(Some 3, Some ''#FF0000''), (Some 2, Some ''#FF0000'')], face_id = None, val = None\<rparr> :: string request)) = [] \<and>
   db_log (snd (set_color (demo_env (\<lambda>t. [])) \<lparr>updates = Some [(Some 3, Some ''#FF0000''), (Some 2, Some ''#FF0000'')], face_id = None, val = None\<rparr> demo_world)) = db_log demo_world \<and>
   writes_known_only demo_world (items_of mixed_batch) (set_thread (demo_env (\<lambda>t. [])) mixed_batch demo_world) \<and>
   new_calls demo_world (snd (set_thread (demo_env (\<lambda>t. [])) mixed_batch demo_world)) =
     [SaveFaceMeta ''b2'' [(''thread'', Thread ''M (ISO Metric)'' ''M6'' ''1.0'' [])] (Some ''cylinder''),
      SaveFaceMeta ''f6'' [(''thread'', Thread ''M (ISO Metric)'' ''M6'' ''1.0'' [])] (Some ''plane'')] \<and>
   fst (set_thread (demo_env (\<lambda>t. [])) mixed_batch demo_world) = (Updated 2 :: nat response)"
proof -
  let ?c = "\<lparr>updates = Some [(Some 3, Some ''#FF0000''), (Some 2, Some ''#FF0000'')], face_id = None, val = None\<rparr> :: string request"
  have h: "filter (persistable demo_world) (items_of ?c) = []"
    by (simp add: persistable_def items_of_def demo_defs out_of_range_def known_hash_def)
  have e1: "new_calls demo_world (snd (set_thread (demo_env (\<lambda>t. [])) mixed_batch demo_world)) =
     [SaveFaceMeta ''b2'' [(''thread'', Thread ''M (ISO Metric)'' ''M6'' ''1.0'' [])] (Some ''cylinder''),
      SaveFaceMeta ''f6'' [(''thread'', Thread ''M (ISO Metric)'' ''M6'' ''1.0'' [])] (Some ''plane'')]"
    by (simp add: new_calls_def demo_defs route_defs Let_def)
  have e2: "fst (set_thread (demo_env (\<lambda>t. [])) mixed_batch demo_world) = (Updated 2 :: nat response)"
    by (simp add: demo_defs route_defs Let_def)
  from unknown_fingerprint_never_persisted [of demo_world ?c "demo_env (\<lambda>t. [])" mixed_batch] h e1 e2
  show ?thesis by blast
qed

section \<open>Batches with bad face indices\<close>


lemma set_attr_items_in_range:
  assumes "\<not> out_of_range w i"
  shows "set_attr_items e key mk ((Some i, v) # rest) w n =
     (case persist e i (attr_update key mk i v w) of
        None \<Rightarrow> (attr_update key mk i v w, None)
      | Some (w2, k) \<Rightarrow> set_attr_items e key mk rest w2 (n + k))"
  by (simp only: set_attr_items.simps option.case prod.case assms if_False Let_def attr_update_def)

























section \<open>Removing the last attribute of a record\<close>

lemma world_with_thread_eq:
  "world_with_thread =
   \<lparr>sess = demo_session\<lparr>face_meta := [1 \<mapsto> [(''thread'', Thread ''M (ISO Metric)'' ''M6'' ''1.0'' [])]]\<rparr>,
    files = [Uploaded ''m1'' \<mapsto> lit ''DATA;''],
    trace = [DbCall (SaveFaceMeta ''b2'' [(''thread'', Thread ''M (ISO Metric)'' ''M6'' ''1.0'' [])] (Some ''cylinder''))]\<rparr>"
  by (simp add: world_with_thread_def demo_defs route_defs Let_def)

lemma world_without_thread_eq:
  "world_without_thread =
   \<lparr>sess = demo_session,
    files = [Uploaded ''m1'' \<mapsto> lit ''DATA;''],
    trace = [DbCall (SaveFaceMeta ''b2'' [(''thread'', Thread ''M (ISO Metric)'' ''M6'' ''1.0'' [])] (Some ''cylinder''))]\<rparr>"
  unfolding world_without_thread_def world_with_thread_eq
  by (simp add: demo_defs route_defs Let_def)

text \<open>
  C3, as stated, fails on the store. Face 1 of the small document gets a thread and the
  record is saved under its fingerprint \<open>b2\<close>; the thread is then removed with a null
  value. The record is gone from the in-memory map, and a lookup of \<open>b2\<close> in the store
  still returns the record with the thread.
\<close>

theorem removal_leaves_store_entry:
  "face_meta (sess world_with_thread) 1 = Some [(''thread'', Thread ''M (ISO Metric)'' ''M6'' ''1.0'' [])] \<and>
   face_meta (sess world_without_thread) 1 = None \<and>
   store_get world_without_thread ''b2'' = Some [(''thread'', Thread ''M (ISO Metric)'' ''M6'' ''1.0'' [])] \<and>
   store_get world_without_thread ''b2'' \<noteq> None"
  by (simp add: world_with_thread_eq world_without_thread_eq store_get_def store_of_def db_log_def
        demo_session_def)

lemma save_for_no_empty: "save_for w its c \<Longrightarrow> no_empty_record c"
  by (auto simp: save_for_def no_empty_record_def split: db_call.splits)

lemma writes_no_empty:
  assumes "writes_known_only w its out"
  shows "list_all no_empty_record (new_calls w (snd out))"
  using assms
  by (auto simp: writes_known_only_def Let_def list_all_iff intro: save_for_no_empty)

lemma meta_pop_last:
  assumes "face_meta (sess w) i = Some m" and "AList.delete key m = []"
  shows "meta_pop i key w = w\<lparr>sess := (sess w)\<lparr>face_meta := (face_meta (sess w))(i := None)\<rparr>\<rparr>"
  using assms by (simp add: meta_pop_def)

lemma persist_no_record:
  assumes "face_meta (sess w) i = None"
  shows "persist e i w = Some (w, 0)"
  using assms by (simp add: persist_def Let_def)

lemma set_attr_remove_last:
  assumes "doc (sess w) \<noteq> None" and "\<not> out_of_range w i" and "\<not> truthy v"
    and "items_of data = [(Some i, v)]"
    and "face_meta (sess w) i = Some m" and "AList.delete key m = []"
  shows "set_attr e key mk data w =
           (Updated 0, w\<lparr>sess := (sess w)\<lparr>face_meta := (face_meta (sess w))(i := None)\<rparr>\<rparr>)"
proof -
  let ?w1 = "w\<lparr>sess := (sess w)\<lparr>face_meta := (face_meta (sess w))(i := None)\<rparr>\<rparr>"
  from assms(1) obtain d where d: "doc (sess w) = Some d" by auto
  have u: "attr_update key mk i v w = ?w1"
    using assms(3) meta_pop_last [OF assms(5,6)] by (simp add: attr_update_def)
  have p: "persist e i ?w1 = Some (?w1, 0)"
    by (rule persist_no_record) simp
  have "set_attr_items e key mk (items_of data) w 0 = (?w1, Some 0)"
    unfolding assms(4)
    by (simp add: set_attr_items_in_range [OF assms(2)] u p del: set_attr_items.simps(2))
  then show ?thesis by (simp add: set_attr_def d)
qed

text \<open>
  C3, amended. An update of \<open>set_thread\<close> or \<open>set_tolerance\<close> with a null or empty value,
  for a face whose record holds only that attribute, removes the face's record from the
  in-memory map, answers with \<open>db_updated_count\<close> 0 and makes no call into the store. And no
  call that \<open>set_color\<close>, \<open>set_thread\<close> or \<open>set_tolerance\<close> ever makes into the store saves
  an empty record.
\<close>

theorem removing_last_attribute:
  assumes "doc (sess w) \<noteq> None" and "\<not> out_of_range w i" and "\<not> truthy v"
    and "items_of data = [(Some i, v)]" and "face_meta (sess w) i = Some m"
  shows "(AList.delete ''thread'' m = [] \<longrightarrow>
            fst (set_thread e data w) = Updated 0 \<and>
            face_meta (sess (snd (set_thread e data w))) = (face_meta (sess w))(i := None) \<and>
            face_meta (sess (snd (set_thread e data w))) i = None \<and>
            db_log (snd (set_thread e data w)) = db_log w) \<and>
         (AList.delete ''tolerance'' m = [] \<longrightarrow>
            fst (set_tolerance e data w) = Updated 0 \<and>
            face_meta (sess (snd (set_tolerance e data w))) = (face_meta (sess w))(i := None) \<and>
            face_meta (sess (snd (set_tolerance e data w))) i = None \<and>
            db_log (snd (set_tolerance e data w)) = db_log w) \<and>
         list_all no_empty_record (new_calls w' (snd (set_thread e data' w'))) \<and>
         list_all no_empty_record (new_calls w' (snd (set_tolerance e data' w'))) \<and>
         list_all no_empty_record (new_calls w' (snd (set_color e cdata w')))"
proof -
  have 1: "fst (set_thread e data w) = Updated 0 \<and>
            face_meta (sess (snd (set_thread e data w))) = (face_meta (sess w))(i := None) \<and>
            face_meta (sess (snd (set_thread e data w))) i = None \<and>
            db_log (snd (set_thread e data w)) = db_log w"
    if "AList.delete ''thread'' m = []"
    by (simp add: set_thread_def set_attr_remove_last [OF assms that])
  have 2: "fst (set_tolerance e data w) = Updated 0 \<and>
            face_meta (sess (snd (set_tolerance e data w))) = (face_meta (sess w))(i := None) \<and>
            face_meta (sess (snd (set_tolerance e data w))) i = None \<and>
            db_log (snd (set_tolerance e data w)) = db_log w"
    if "AList.delete ''tolerance'' m = []"
    by (simp add: set_tolerance_def set_attr_remove_last [OF assms that])
  have 3: "list_all no_empty_record (new_calls w' (snd (set_thread e data' w')))"
    unfolding set_thread_def by (rule writes_no_empty [OF set_attr_writes])
  have 4: "list_all no_empty_record (new_calls w' (snd (set_tolerance e data' w')))"
    unfolding set_tolerance_def by (rule writes_no_empty [OF set_attr_writes])
  have 5: "list_all no_empty_record (new_calls w' (snd (set_color e cdata w')))"
    by (rule writes_no_empty [OF set_color_writes])
  from 1 2 3 4 5 show ?thesis by blast
qed

theorem removing_last_attribute_witness:
  "doc (sess world_with_thread) \<noteq> None \<and> \<not> out_of_range world_with_thread 1 \<and>
   \<not> truthy None \<and> items_of thread_off_1 = [(Some 1, None)] \<and>
   face_meta (sess world_with_thread) 1 =
     Some [(''thread'', Thread ''M (ISO Metric)'' ''M6'' ''1.0'' [])] \<and>
   AList.delete ''thread'' [(''thread'', Thread ''M (ISO Metric)'' ''M6'' ''1.0'' [])] = [] \<and>
   fst (set_thread (demo_env (\<lambda>t. [])) thread_off_1 world_with_thread) = (Updated 0 :: nat response) \<and>
   face_meta (sess (snd (set_thread (demo_env (\<lambda>t. [])) thread_off_1 world_with_thread))) 1 = None \<and>
   db_log (snd (set_thread (demo_env (\<lambda>t. [])) thread_off_1 world_with_thread)) =
     db_log world_with_thread"
proof -
  let ?e = "demo_env (\<lambda>t. []) :: (string, nat) env"
  let ?m = "[(''thread'', Thread ''M (ISO Metric)'' ''M6'' ''1.0'' [])]"
  have h1: "doc (sess world_with_thread) \<noteq> None"
    by (simp add: world_with_thread_eq demo_session_def)
  have h2: "\<not> out_of_range world_with_thread 1"
    by (simp add: world_with_thread_eq demo_session_def demo_shapes_def out_of_range_def)
  have h3: "\<not> truthy None" by (simp add: truthy_def)
  have h4: "items_of thread_off_1 = [(Some 1, None)]"
    by (simp add: thread_off_1_def items_of_def)
  have h5: "face_meta (sess world_with_thread) 1 = Some ?m"
    by (simp add: world_with_thread_eq)
  have h6: "AList.delete ''thread'' ?m = []"
    by (simp add: AList.delete_eq)
  from removing_last_attribute [OF h1 h2 h3 h4 h5, of ?e] h1 h2 h3 h4 h5 h6
  show ?thesis by blast
qed

section \<open>Purge and load\<close>

lemma clear_memory_simps [simp]:
  "face_meta (sess (clear_memory sc w)) = Map.empty"
  "files (clear_memory sc w) = files w"
  "db_log (clear_memory sc w) = db_log w"
  "trace (clear_memory sc w) = trace w @ [Print (MemoryCleared sc)]"
  by (simp_all add: clear_memory_def)

lemma ensure_loaded_error:
  assumes "ensure_loaded e u w = (Some r, w1)"
  shows "\<exists>c m. r = Err c m"
  using assms
  by (auto simp: ensure_loaded_def Let_def split: if_splits prod.splits sum.splits)

lemma ensure_loaded_frame:
  assumes "ensure_loaded e u w = (r, w1)"
  shows "files w1 = files w" and "trace w1 = trace w"
  using assms
  by (auto simp: ensure_loaded_def Let_def split: if_splits prod.splits sum.splits)

lemma file_cleanup_error:
  assumes "file_cleanup e u w = (Inl r, w1)"
  shows "\<exists>c m. r = Err c m"
  using assms
  by (auto simp: file_cleanup_def Let_def split: if_splits option.splits)

lemma db_cleanup_trace:
  assumes "db_cleanup e sc w = Some (w2, n, parts)"
  shows "trace w2 = trace w @
           (if sc = ''all'' then [DbCall ClearDatabase]
            else if sc = ''db''
              then [DbCall (DeleteFaces (map the (filter known_hash (face_hashes (sess w)))))]
            else [])"
  using assms
  by (auto simp: db_cleanup_def db_exec_def Let_def split: if_splits option.splits)

text \<open>What the file step does when the file is there, whatever the extractor returns.\<close>

lemma file_cleanup_found:
  assumes "files w (if files w (Uploaded u) = None \<and> u = ''sample'' then SampleStep else Uploaded u)
             = Some original"
  shows "file_cleanup e u w =
    (let file_path = (if files w (Uploaded u) = None \<and> u = ''sample'' then SampleStep else Uploaded u);
         content = strip_metadata original;
         stripped_chars = int (length original) - int (length content)
     in (Inr [StrippedFile stripped_chars],
         w\<lparr>files := (files w)(file_path \<mapsto> content),
           trace := trace w @
             [Print (MetaBefore (map fst (extract_meta_from_step e original))),
              WriteFile file_path,
              Print (if extract_meta_from_step e content \<noteq> []
                     then MetaStillDetected (map fst (extract_meta_from_step e content))
                     else FileIsClean stripped_chars)]\<rparr>))"
  using assms by (simp add: file_cleanup_def Let_def emit_def)

lemma file_cleanup_trace:
  assumes "file_cleanup e u w = (Inr parts, w3)"
  shows "\<exists>l1 p l2. trace w3 = trace w @ [Print l1, WriteFile p, Print l2]"
proof -
  let ?p = "if files w (Uploaded u) = None \<and> u = ''sample'' then SampleStep else Uploaded u"
  from assms obtain original where "files w ?p = Some original"
    by (cases "files w ?p") (simp_all add: file_cleanup_def Let_def)
  from file_cleanup_found [OF this, of e] assms show ?thesis
    by (auto simp: Let_def)
qed

lemma purge_success_shape:
  assumes "admin_clear_metadata e data w = (Purged n msg, w')"
  shows "\<exists>u w1 w2 k parts1 parts2 w3.
           uuid data = Some u \<and> ensure_loaded e u w = (None, w1) \<and>
           db_cleanup e (resolved_scope data) w1 = Some (w2, k, parts1) \<and>
           (if resolved_scope data = ''file'' \<or> resolved_scope data = ''all''
            then file_cleanup e u w2 else (Inr [], w2)) = (Inr parts2, w3) \<and>
           w' = clear_memory (resolved_scope data) w3"
  using assms
  by (auto simp: admin_clear_metadata_def resolved_scope_def Let_def
           split: if_splits option.splits prod.splits sum.splits
           dest: ensure_loaded_error file_cleanup_error)

text \<open>
  C1. When the purge route answers with success, the in-memory metadata map is empty,
  whatever the scope was. The effects of the request end with the clearing of the map
  (the line the route prints right after it): the store call of scope \<open>db\<close> or \<open>all\<close> and
  the rewriting of the file of scope \<open>file\<close> or \<open>all\<close> come before it, and nothing comes
  after it.
\<close>

theorem purge_clears_memory_last:
  assumes "admin_clear_metadata e data w = (Purged n msg, w')"
  shows "face_meta (sess w') = Map.empty \<and>
         (\<exists>steps. trace w' = trace w @ steps @ [Print (MemoryCleared (resolved_scope data))] \<and>
            (resolved_scope data = ''all'' \<longrightarrow> DbCall ClearDatabase \<in> set steps) \<and>
            (resolved_scope data = ''db'' \<longrightarrow> (\<exists>hs. DbCall (DeleteFaces hs) \<in> set steps)) \<and>
            (resolved_scope data = ''file'' \<or> resolved_scope data = ''all'' \<longrightarrow>
               (\<exists>p. WriteFile p \<in> set steps)))"
proof -
  let ?sc = "resolved_scope data"
  from purge_success_shape [OF assms] obtain u w1 w2 k parts1 parts2 w3 where
    load: "ensure_loaded e u w = (None, w1)" and
    db: "db_cleanup e ?sc w1 = Some (w2, k, parts1)" and
    fc: "(if ?sc = ''file'' \<or> ?sc = ''all'' then file_cleanup e u w2 else (Inr [], w2))
             = (Inr parts2, w3)" and
    w': "w' = clear_memory ?sc w3"
    by blast
  have t1: "trace w1 = trace w" using ensure_loaded_frame [OF load] by simp
  note t2 = db_cleanup_trace [OF db]
  have t3: "\<exists>fsteps. trace w3 = trace w2 @ fsteps \<and>
              (?sc = ''file'' \<or> ?sc = ''all'' \<longrightarrow> (\<exists>p. WriteFile p \<in> set fsteps))"
  proof (cases "?sc = ''file'' \<or> ?sc = ''all''")
    case True
    with fc have "file_cleanup e u w2 = (Inr parts2, w3)" by simp
    from file_cleanup_trace [OF this] obtain l1 p l2 where
      "trace w3 = trace w2 @ [Print l1, WriteFile p, Print l2]" by blast
    then show ?thesis by (intro exI [of _ "[Print l1, WriteFile p, Print l2]"]) auto
  next
    case False
    with fc show ?thesis by simp
  qed
  then obtain fsteps where f: "trace w3 = trace w2 @ fsteps"
    "?sc = ''file'' \<or> ?sc = ''all'' \<longrightarrow> (\<exists>p. WriteFile p \<in> set fsteps)"
    by blast
  let ?dsteps = "if ?sc = ''all'' then [DbCall ClearDatabase]
            else if ?sc = ''db''
              then [DbCall (DeleteFaces (map the (filter known_hash (face_hashes (sess w1)))))]
            else []"
  have "trace w' = trace w @ (?dsteps @ fsteps) @ [Print (MemoryCleared ?sc)]"
    unfolding w' using t1 t2 f(1) by simp
  moreover have "?sc = ''all'' \<longrightarrow> DbCall ClearDatabase \<in> set (?dsteps @ fsteps)" by simp
  moreover have "?sc = ''db'' \<longrightarrow> (\<exists>hs. DbCall (DeleteFaces hs) \<in> set (?dsteps @ fsteps))" by auto
  moreover have "?sc = ''file'' \<or> ?sc = ''all'' \<longrightarrow> (\<exists>p. WriteFile p \<in> set (?dsteps @ fsteps))"
    using f(2) by auto
  moreover have "face_meta (sess w') = Map.empty" unfolding w' by simp
  ultimately show ?thesis by blast
qed

lemmas purge_defs = admin_clear_metadata_def ensure_loaded_def db_cleanup_def file_cleanup_def
  clear_memory_def resolved_scope_def db_exec_def emit_def known_hash_def

theorem purge_clears_memory_last_witness:
  "admin_clear_metadata (demo_env (\<lambda>t. [])) purge_db world_with_thread =
     (Purged 3 [DeletedEntries 3, ClearedMemory],
      \<lparr>sess = demo_session, files = [Uploaded ''m1'' \<mapsto> lit ''DATA;''],
       trace = [DbCall (SaveFaceMeta ''b2'' [(''thread'', Thread ''M (ISO Metric)'' ''M6'' ''1.0'' [])] (Some ''cylinder'')),
                DbCall (DeleteFaces [''a1'', ''b2'', ''f6'']),
                Print (MemoryCleared ''db'')]\<rparr>) \<and>
   face_meta (sess world_with_thread) \<noteq> Map.empty \<and>
   face_meta (sess (snd (admin_clear_metadata (demo_env (\<lambda>t. [])) purge_db world_with_thread))) = Map.empty"
proof -
  let ?e = "demo_env (\<lambda>t. []) :: (string, nat) env"
  let ?w' = "\<lparr>sess = demo_session, files = [Uploaded ''m1'' \<mapsto> lit ''DATA;''],
       trace = [DbCall (SaveFaceMeta ''b2'' [(''thread'', Thread ''M (ISO Metric)'' ''M6'' ''1.0'' [])] (Some ''cylinder'')),
                DbCall (DeleteFaces [''a1'', ''b2'', ''f6'']),
                Print (MemoryCleared ''db'')]\<rparr> :: string world"
  have h: "admin_clear_metadata ?e purge_db world_with_thread =
     (Purged 3 [DeletedEntries 3, ClearedMemory], ?w')"
    by (simp add: world_with_thread_eq purge_db_def purge_defs demo_env_def demo_session_def db_log_def
          Let_def)
  have n: "face_meta (sess world_with_thread) 1 \<noteq> None"
    by (simp add: world_with_thread_eq)
  then have n': "face_meta (sess world_with_thread) \<noteq> Map.empty" by auto
  from purge_clears_memory_last [OF h] h n' show ?thesis by simp
qed

text \<open>
  C10. A purge request for a document that is or can be loaded, with a scope other than
  \<open>db\<close>, \<open>file\<close> and \<open>all\<close>, is answered with success, \<open>deleted_count\<close> 0 and the one message
  about the memory; it makes no call into the store and leaves every file as it was,
  and the in-memory metadata map is empty afterwards. A request without scope is the
  request with scope \<open>all\<close>.
\<close>

theorem unknown_scope_memory_only:
  assumes "uuid data = Some u" and "u \<noteq> []"
    and "scope data = Some sc" and "sc \<noteq> ''db''" and "sc \<noteq> ''file''" and "sc \<noteq> ''all''"
    and "ensure_loaded e u w = (None, w1)"
  shows "admin_clear_metadata e data w = (Purged 0 [ClearedMemory], clear_memory sc w1) \<and>
         db_log (clear_memory sc w1) = db_log w \<and>
         files (clear_memory sc w1) = files w \<and>
         trace (clear_memory sc w1) = trace w @ [Print (MemoryCleared sc)] \<and>
         face_meta (sess (clear_memory sc w1)) = Map.empty \<and>
         admin_clear_metadata e (data\<lparr>scope := None\<rparr>) w =
           admin_clear_metadata e (data\<lparr>scope := Some ''all''\<rparr>) w"
proof -
  have "admin_clear_metadata e data w = (Purged 0 [ClearedMemory], clear_memory sc w1)"
    using assms by (simp add: admin_clear_metadata_def db_cleanup_def)
  moreover have "trace w1 = trace w" "files w1 = files w"
    using ensure_loaded_frame [OF assms(7)] by simp_all
  moreover from this have "db_log w1 = db_log w" by (simp add: db_log_def)
  moreover have "admin_clear_metadata e (data\<lparr>scope := None\<rparr>) w =
           admin_clear_metadata e (data\<lparr>scope := Some ''all''\<rparr>) w"
    by (simp add: admin_clear_metadata_def)
  ultimately show ?thesis by simp
qed

theorem unknown_scope_memory_only_witness:
  "uuid purge_bogus = Some ''m1'' \<and> ''m1'' \<noteq> [] \<and> scope purge_bogus = Some ''bogus'' \<and>
   ''bogus'' \<noteq> ''db'' \<and> ''bogus'' \<noteq> ''file'' \<and> ''bogus'' \<noteq> ''all'' \<and>
   ensure_loaded (demo_env (\<lambda>t. [])) ''m1'' world_with_thread = (None, world_with_thread) \<and>
   admin_clear_metadata (demo_env (\<lambda>t. [])) purge_bogus world_with_thread =
     (Purged 0 [ClearedMemory], clear_memory ''bogus'' world_with_thread) \<and>
   db_log (clear_memory ''bogus'' world_with_thread) = db_log world_with_thread \<and>
   face_meta (sess (clear_memory ''bogus'' world_with_thread)) = Map.empty"
proof -
  let ?e = "demo_env (\<lambda>t. []) :: (string, nat) env"
  have h1: "uuid purge_bogus = Some ''m1''" and h3: "scope purge_bogus = Some ''bogus''"
    by (simp_all add: purge_bogus_def)
  have h7: "ensure_loaded ?e ''m1'' world_with_thread = (None, world_with_thread)"
    by (simp add: ensure_loaded_def world_with_thread_eq demo_session_def)
  from unknown_scope_memory_only [OF h1 _ h3 _ _ _ h7] h1 h3 h7
  show ?thesis by simp
qed


lemma no_document_reset [simp]: "no_document (reset s)"
  by (simp add: no_document_def reset_def)

text \<open>\<open>upload\<close>: a load that raises ends in the session after \<open>model.reset()\<close>, and the file is removed.\<close>

lemma upload_failed_load:
  assumes "filename \<noteq> []"
    and "lower e (snd (splitext e filename)) = ''.step'' \<or> lower e (snd (splitext e filename)) = ''.stp''"
    and "load_step_xcaf e (Uploaded fresh) (staged_upload e fresh filename content w) = (Inl msg, s')"
  shows "fst (upload e fresh (Some (filename, content)) w) = Err 500 msg"
    and "sess (snd (upload e fresh (Some (filename, content)) w)) = reset s'"
    and "no_document (sess (snd (upload e fresh (Some (filename, content)) w)))"
    and "files (snd (upload e fresh (Some (filename, content)) w)) (Uploaded fresh) = None"
  using assms by (auto simp: upload_def staged_upload_def Let_def)

text \<open>
  \<open>get_model\<close>: a load that raises ends in the session as the loader left it; the
  \<open>except\<close> branch has no \<open>model.reset()\<close>.
\<close>

lemma get_model_failed_load:
  assumes "files w (Uploaded u) \<noteq> None"
    and "load_step_xcaf e (Uploaded u) (staged_get_model u w) = (Inl msg, s')"
  shows "get_model e u w = (Err 500 msg, w\<lparr>sess := s'\<rparr>)"
  using assms by (auto simp: get_model_def staged_get_model_def Let_def)

text \<open>
  C6 holds for \<open>upload\<close> and fails for \<open>get_model\<close>. With a loader that raises after it has
  put the document and its faces into the session, \<open>upload\<close> answers with the error and
  leaves a session without document, and \<open>get_model\<close> answers with the same error and
  leaves the document and the faces of the failed load in the session.
\<close>

theorem get_model_keeps_failed_load:
  "fst (upload partial_env ''u2'' (Some (''part.step'', lit ''DATA;'')) demo_world) =
     Err 500 ''store unavailable'' \<and>
   no_document (sess (snd (upload partial_env ''u2'' (Some (''part.step'', lit ''DATA;'')) demo_world))) \<and>
   fst (get_model partial_env ''m1'' demo_world) = Err 500 ''store unavailable'' \<and>
   doc (sess (snd (get_model partial_env ''m1'' demo_world))) = Some 1 \<and>
   face_shapes (sess (snd (get_model partial_env ''m1'' demo_world))) = demo_shapes \<and>
   face_hashes (sess (snd (get_model partial_env ''m1'' demo_world))) = [Some ''a1'', Some ''b2''] \<and>
   \<not> no_document (sess (snd (get_model partial_env ''m1'' demo_world)))"
proof -
  have l: "load_step_xcaf partial_env = partial_load"
    by (simp add: partial_env_def)
  have a1: "''part.step'' \<noteq> []" by simp
  have a2: "lower partial_env (snd (splitext partial_env ''part.step'')) = ''.step'' \<or>
            lower partial_env (snd (splitext partial_env ''part.step'')) = ''.stp''"
    by (simp add: partial_env_def demo_env_def)
  have a3: "load_step_xcaf partial_env (Uploaded ''u2'')
              (staged_upload partial_env ''u2'' ''part.step'' (lit ''DATA;'') demo_world) =
            (Inl ''store unavailable'',
             (sess (staged_upload partial_env ''u2'' ''part.step'' (lit ''DATA;'') demo_world))
               \<lparr>doc := Some 1, face_shapes := demo_shapes, face_hashes := [Some ''a1'', Some ''b2'']\<rparr>)"
    by (simp add: l partial_load_def)
  note u = upload_failed_load(1,3) [OF a1 a2 a3]
  have f: "files demo_world (Uploaded ''m1'') \<noteq> None"
    by (simp add: demo_world_def)
  have g: "get_model partial_env ''m1'' demo_world =
      (Err 500 ''store unavailable'',
       demo_world\<lparr>sess := (sess (staged_get_model ''m1'' demo_world))\<lparr>doc := Some 1,
          face_shapes := demo_shapes, face_hashes := [Some ''a1'', Some ''b2'']\<rparr>\<rparr>)"
    by (rule get_model_failed_load [OF f]) (simp add: l partial_load_def)
  show ?thesis
    using u by (simp add: g no_document_def)
qed

section \<open>Hole groups\<close>













































section \<open>Blanking the payload of tagged entities\<close>

lemma strip_prefix_Some: "strip_prefix p s = Some r \<longleftrightarrow> s = p @ r"
  by (induction p s rule: strip_prefix.induct) auto

lemma strip_prefix_append [simp]: "strip_prefix p (p @ r) = Some r"
  by (simp add: strip_prefix_Some)

lemma spaces_split:
  assumes "strip_prefix x (dropWhile is_space r) = Some r'"
  shows "\<exists>ws. list_all is_space ws \<and> r = ws @ x @ r'"
proof -
  have "r = takeWhile is_space r @ dropWhile is_space r" by simp
  moreover have "dropWhile is_space r = x @ r'"
    using assms by (simp add: strip_prefix_Some)
  moreover have "list_all is_space (takeWhile is_space r)"
    by (auto simp: list_all_iff dest: set_takeWhileD)
  ultimately show ?thesis by metis
qed

lemma entity_tail_shape:
  assumes "entity_tail r = Some (p, g2, rest)"
  shows "\<exists>c d f. list_all is_space c \<and> list_all is_space d \<and> list_all is_space f \<and>
           quote \<notin> set p \<and>
           r = [quote] @ c @ lit '','' @ d @ [quote] @ p @ [quote] @ f @ lit '')'' @ rest \<and>
           g2 = [quote] @ f @ lit '')''"
proof -
  from assms obtain r1 r2 r3 r5 where
    1: "strip_prefix [quote] r = Some r1" and
    2: "strip_prefix (lit '','') (dropWhile is_space r1) = Some r2" and
    3: "strip_prefix [quote] (dropWhile is_space r2) = Some r3" and
    p: "p = takeWhile (\<lambda>c. c \<noteq> quote) r3" and
    5: "strip_prefix [quote] (dropWhile (\<lambda>c. c \<noteq> quote) r3) = Some r5" and
    6: "strip_prefix (lit '')'') (dropWhile is_space r5) = Some rest" and
    g: "g2 = take (length (dropWhile (\<lambda>c. c \<noteq> quote) r3) - length rest)
                 (dropWhile (\<lambda>c. c \<noteq> quote) r3)"
    by (auto simp: entity_tail_def Let_def split: Option.bind_splits)
  from spaces_split [OF 2] obtain c where c: "list_all is_space c" "r1 = c @ lit '','' @ r2" by blast
  from spaces_split [OF 3] obtain d where d: "list_all is_space d" "r2 = d @ [quote] @ r3" by blast
  from spaces_split [OF 6] obtain f where f: "list_all is_space f" "r5 = f @ lit '')'' @ rest" by blast
  have r4: "dropWhile (\<lambda>c. c \<noteq> quote) r3 = [quote] @ f @ lit '')'' @ rest"
    using 5 f(2) by (simp add: strip_prefix_Some)
  have r3: "r3 = p @ [quote] @ f @ lit '')'' @ rest"
    using takeWhile_dropWhile_id [of "\<lambda>c. c \<noteq> quote" r3] by (simp add: p r4)
  have q: "quote \<notin> set p"
    unfolding p by (auto dest: set_takeWhileD)
  have g2: "g2 = [quote] @ f @ lit '')''"
    unfolding g r4 by simp
  have "r = [quote] @ c @ lit '','' @ d @ [quote] @ p @ [quote] @ f @ lit '')'' @ rest"
    using 1 c(2) d(2) r3 by (simp add: strip_prefix_Some)
  with c(1) d(1) f(1) q g2 show ?thesis by blast
qed

lemma entity_match_shape:
  assumes "entity_match s = Some (g1, p, g2, rest)"
  shows "\<exists>a b tg c d f.
           tagged_entity (Blanked a b tg c d p f) \<and>
           s = entity_text a b tg c d p f @ rest \<and>
           g1 @ g2 = entity_text a b tg c d [] f"
proof -
  from assms obtain r1 r2 r3 where
    1: "strip_prefix keyword s = Some r1" and
    2: "strip_prefix (lit ''('') (dropWhile is_space r1) = Some r2" and
    3: "strip_prefix [quote] (dropWhile is_space r2) = Some r3" and
    t: "(case Option.bind (strip_prefix (lit ''SVFM'') r3) entity_tail of
             Some x \<Rightarrow> Some x
           | None \<Rightarrow> Option.bind (strip_prefix (lit ''StepViewerFaceMetadata'') r3) entity_tail)
         = Some (p, g2, rest)" and
    g: "g1 = take (length s - length p - length g2 - length rest) s"
    by (auto simp: entity_match_def Let_def split: Option.bind_splits)
  from t obtain tg r4 where tg: "tg = lit ''SVFM'' \<or> tg = lit ''StepViewerFaceMetadata''"
    and r3: "r3 = tg @ r4" and tl: "entity_tail r4 = Some (p, g2, rest)"
    by (auto simp: strip_prefix_Some split: option.splits Option.bind_splits)
  from entity_tail_shape [OF tl] obtain c d f where
    sp: "list_all is_space c" "list_all is_space d" "list_all is_space f" "quote \<notin> set p" and
    r4: "r4 = [quote] @ c @ lit '','' @ d @ [quote] @ p @ [quote] @ f @ lit '')'' @ rest" and
    g2: "g2 = [quote] @ f @ lit '')''"
    by blast
  from spaces_split [OF 2] obtain a where a: "list_all is_space a" "r1 = a @ lit ''('' @ r2" by blast
  from spaces_split [OF 3] obtain b where b: "list_all is_space b" "r2 = b @ [quote] @ r3" by blast
  have s: "s = entity_text a b tg c d p f @ rest"
    using 1 a(2) b(2) r3 r4 by (simp add: strip_prefix_Some entity_text_def)
  define G where "G = keyword @ a @ lit ''('' @ b @ [quote] @ tg @ [quote] @ c @ lit '','' @ d @ [quote]"
  have sG: "s = G @ p @ g2 @ rest"
    using s g2 by (simp add: G_def entity_text_def)
  have "length s - length p - length g2 - length rest = length G"
    unfolding sG by simp
  then have "g1 = G"
    unfolding g by (simp add: sG)
  then have "g1 @ g2 = entity_text a b tg c d [] f"
    by (simp add: g2 G_def entity_text_def)
  with a(1) b(1) sp tg s show ?thesis
    by (intro exI [of _ a] exI [of _ b] exI [of _ tg] exI [of _ c] exI [of _ d] exI [of _ f]) simp
qed

lemma entity_text_nonempty: "entity_text a b tg c d p f \<noteq> []"
  by (simp add: entity_text_def keyword_def lit_def)

lemma re_sub_match:
  assumes "m s = Some (repl, rest)" and "length rest < length s"
  shows "re_sub m s = repl @ re_sub m rest"
  using assms by (cases s) simp_all

subsection \<open>A tagged entity is matched whole\<close>

lemma skip_spaces:
  assumes "list_all is_space ws" and "\<not> is_space x"
  shows "dropWhile is_space (ws @ x # r) = x # r"
  using assms by (induction ws) simp_all

lemma payload_split:
  assumes "quote \<notin> set p"
  shows "takeWhile (\<lambda>c. c \<noteq> quote) (p @ quote # r) = p"
    and "dropWhile (\<lambda>c. c \<noteq> quote) (p @ quote # r) = quote # r"
  using assms by (induction p) auto

lemma not_space [simp]: "\<not> is_space 39" "\<not> is_space 40" "\<not> is_space 41" "\<not> is_space 44"
  by (simp_all add: is_space_def)

lemma entity_tail_complete:
  assumes "list_all is_space c" and "list_all is_space d" and "list_all is_space f"
    and "quote \<notin> set p"
  shows "entity_tail ([quote] @ c @ lit '','' @ d @ [quote] @ p @ [quote] @ f @ lit '')'' @ rest) =
           Some (p, [quote] @ f @ lit '')'', rest)"
proof -
  have 1: "dropWhile is_space (c @ 44 # d @ quote # p @ quote # f @ 41 # rest) =
             44 # d @ quote # p @ quote # f @ 41 # rest"
    by (rule skip_spaces [OF assms(1)]) simp
  have 2: "dropWhile is_space (d @ quote # p @ quote # f @ 41 # rest) = quote # p @ quote # f @ 41 # rest"
    by (rule skip_spaces [OF assms(2)]) (simp add: quote_def)
  have 3: "dropWhile is_space (f @ 41 # rest) = 41 # rest"
    by (rule skip_spaces [OF assms(3)]) simp
  have 4: "take (Suc (length f + Suc (length rest)) - length rest) (quote # f @ 41 # rest) =
             quote # f @ [41]"
    by simp
  show ?thesis
    by (simp add: entity_tail_def lit_def 1 2 3 payload_split [OF assms(4)] Let_def)
qed

lemma entity_match_complete:
  assumes "tagged_entity (Blanked a b tg c d p f)"
  shows "entity_match (entity_text a b tg c d p f @ rest) =
           Some (keyword @ a @ lit ''('' @ b @ [quote] @ tg @ [quote] @ c @ lit '','' @ d @ [quote],
                 p, [quote] @ f @ lit '')'', rest)"
proof -
  from assms have sp: "list_all is_space a" "list_all is_space b" "list_all is_space c"
    "list_all is_space d" "list_all is_space f" "quote \<notin> set p"
    and tg: "tg = lit ''SVFM'' \<or> tg = lit ''StepViewerFaceMetadata''"
    by simp_all
  let ?tail = "[quote] @ c @ lit '','' @ d @ [quote] @ p @ [quote] @ f @ lit '')'' @ rest"
  let ?G = "keyword @ a @ lit ''('' @ b @ [quote] @ tg @ [quote] @ c @ lit '','' @ d @ [quote]"
  have s: "entity_text a b tg c d p f @ rest = keyword @ a @ lit ''('' @ b @ [quote] @ tg @ ?tail"
    by (simp add: entity_text_def)
  have 1: "dropWhile is_space (a @ lit ''('' @ b @ [quote] @ tg @ ?tail) = lit ''('' @ b @ [quote] @ tg @ ?tail"
    using skip_spaces [OF sp(1), of 40] by (simp add: lit_def)
  have 2: "dropWhile is_space (b @ [quote] @ tg @ ?tail) = [quote] @ tg @ ?tail"
    using skip_spaces [OF sp(2), of quote] by (simp add: quote_def)
  have t: "entity_tail ?tail = Some (p, [quote] @ f @ lit '')'', rest)"
    by (rule entity_tail_complete [OF sp(3,4,5,6)])
  have alt: "(case Option.bind (strip_prefix (lit ''SVFM'') (tg @ ?tail)) entity_tail of
             Some x \<Rightarrow> Some x
           | None \<Rightarrow> Option.bind (strip_prefix (lit ''StepViewerFaceMetadata'') (tg @ ?tail)) entity_tail)
         = Some (p, [quote] @ f @ lit '')'', rest)"
  proof (cases "tg = lit ''SVFM''")
    case True
    then show ?thesis using t by simp
  next
    case False
    with tg have e: "tg = lit ''StepViewerFaceMetadata''" by simp
    have "strip_prefix (lit ''SVFM'') (tg @ ?tail) = None"
      unfolding e by (simp add: lit_def)
    then show ?thesis using t by (simp add: e)
  qed
  have len: "length (entity_text a b tg c d p f @ rest) - length p - length ([quote] @ f @ lit '')'') -
               length rest = length ?G"
    by (simp add: entity_text_def)
  have eq: "entity_text a b tg c d p f @ rest = ?G @ (p @ [quote] @ f @ lit '')'' @ rest)"
    by (simp add: entity_text_def)
  have g: "take (length ?G) (entity_text a b tg c d p f @ rest) = ?G"
    unfolding eq by (metis append_eq_conv_conj)
  have "entity_match (keyword @ a @ lit ''('' @ b @ [quote] @ tg @ ?tail) =
          Some (take (length (keyword @ a @ lit ''('' @ b @ [quote] @ tg @ ?tail) - length p -
                        length ([quote] @ f @ lit '')'') - length rest)
                  (keyword @ a @ lit ''('' @ b @ [quote] @ tg @ ?tail),
                p, [quote] @ f @ lit '')'', rest)"
    unfolding entity_match_def
    by (simp only: strip_prefix_append 1 2 alt Let_def bind.bind_lunit prod.case
          append_assoc [symmetric])
       (simp only: append_assoc strip_prefix_append 1 2 alt Let_def bind.bind_lunit prod.case)
  then show ?thesis
    unfolding s [symmetric] len g .
qed

subsection \<open>Tagged entities are blanked, everything else is kept\<close>

lemma entity_match_iff: "entity_match t \<noteq> None \<longleftrightarrow> starts_with_entity t"
proof
  assume "entity_match t \<noteq> None"
  then obtain g1 p g2 rest where "entity_match t = Some (g1, p, g2, rest)"
    by (cases "entity_match t") auto
  from entity_match_shape [OF this] show "starts_with_entity t"
    unfolding starts_with_entity_def by blast
next
  assume "starts_with_entity t"
  then obtain a b tg c d p f rest where
    "tagged_entity (Blanked a b tg c d p f)" "t = entity_text a b tg c d p f @ rest"
    unfolding starts_with_entity_def by blast
  then show "entity_match t \<noteq> None"
    using entity_match_complete [of a b tg c d p f rest] by simp
qed

lemma blank_entities_Nil: "blank_entities [] = []"
  by (simp add: blank_entities_def entity_pattern_def entity_match_def keyword_def lit_def)

lemma blank_entities_other:
  assumes "\<not> starts_with_entity (x # xs)"
  shows "blank_entities (x # xs) = x # blank_entities xs"
proof -
  from assms have "entity_match (x # xs) = None"
    using entity_match_iff [of "x # xs"] by blast
  then show ?thesis
    by (simp add: blank_entities_def entity_pattern_def)
qed

lemma blank_entities_entity:
  assumes "tagged_entity (Blanked a b tg c d p f)"
  shows "blank_entities (entity_text a b tg c d p f @ rest) =
           entity_text a b tg c d [] f @ blank_entities rest"
proof -
  let ?G = "keyword @ a @ lit ''('' @ b @ [quote] @ tg @ [quote] @ c @ lit '','' @ d @ [quote]"
  let ?g2 = "[quote] @ f @ lit '')''"
  have m: "entity_pattern (entity_text a b tg c d p f @ rest) = Some (?G @ ?g2, rest)"
    unfolding entity_pattern_def entity_match_complete [OF assms] by simp
  have l: "length rest < length (entity_text a b tg c d p f @ rest)"
    using entity_text_nonempty [of a b tg c d p f]
    by (cases "entity_text a b tg c d p f") simp_all
  have o: "?G @ ?g2 = entity_text a b tg c d [] f"
    by (simp add: entity_text_def)
  from m l have "re_sub entity_pattern (entity_text a b tg c d p f @ rest) =
      (?G @ ?g2) @ re_sub entity_pattern rest"
    by (rule re_sub_match)
  then show ?thesis
    unfolding blank_entities_def o .
qed

lemma blank_entities_within:
  assumes "tagged_entity (Blanked a b tg c d p f)"
    and "no_entity_within pre (entity_text a b tg c d p f @ rest)"
  shows "blank_entities (pre @ entity_text a b tg c d p f @ rest) =
           pre @ entity_text a b tg c d [] f @ blank_entities rest"
  using assms(2)
proof (induction pre)
  case Nil
  show ?case using blank_entities_entity [OF assms(1)] by simp
next
  case (Cons x pre)
  let ?t = "entity_text a b tg c d p f @ rest"
  have "\<not> starts_with_entity ((x # pre) @ ?t)"
    using Cons.prems unfolding no_entity_within_def by blast
  then have 1: "blank_entities (x # pre @ ?t) = x # blank_entities (pre @ ?t)"
    using blank_entities_other [of x "pre @ ?t"] by simp
  have "no_entity_within pre ?t"
    unfolding no_entity_within_def
  proof (intro allI impI)
    fix u v assume "pre = u @ v \<and> v \<noteq> []"
    then have "x # pre = (x # u) @ v \<and> v \<noteq> []" by simp
    with Cons.prems show "\<not> starts_with_entity (v @ ?t)"
      unfolding no_entity_within_def by blast
  qed
  from Cons.IH [OF this] 1 show ?case by simp
qed

lemma blank_entities_segments:
  "\<exists>segs. list_all tagged_entity segs \<and>
          concat (map before segs) = s \<and>
          concat (map after segs) = blank_entities s"
  unfolding blank_entities_def
proof (induction entity_pattern s rule: re_sub.induct)
  case 1
  have "entity_pattern [] = None"
    by (simp add: entity_pattern_def entity_match_def keyword_def lit_def)
  then show ?case by (intro exI [of _ "[]"]) simp
next
  case (2 c cs)
  show ?case
  proof (cases "entity_pattern (c # cs)")
    case None
    from 2(1) [OF None] obtain segs where
      "list_all tagged_entity segs" "concat (map before segs) = cs"
      "concat (map after segs) = re_sub entity_pattern cs"
      by blast
    with None show ?thesis
      by (intro exI [of _ "Kept [c] # segs"]) simp
  next
    case (Some m)
    then obtain g1 p g2 rest where m: "entity_match (c # cs) = Some (g1, p, g2, rest)"
      and repl: "m = (g1 @ g2, rest)"
      by (auto simp: entity_pattern_def)
    from entity_match_shape [OF m] obtain a b tg c' d f where
      wf: "tagged_entity (Blanked a b tg c' d p f)" and
      s: "c # cs = entity_text a b tg c' d p f @ rest" and
      out: "g1 @ g2 = entity_text a b tg c' d [] f"
      by blast
    have "length (c # cs) = length (entity_text a b tg c' d p f) + length rest"
      by (simp add: s)
    moreover have "1 \<le> length (entity_text a b tg c' d p f)"
      using entity_text_nonempty [of a b tg c' d p f]
      by (cases "entity_text a b tg c' d p f") simp_all
    ultimately have short: "length rest \<le> length cs" by simp
    from 2(2) [OF Some repl [symmetric] short] obtain segs where segs:
      "list_all tagged_entity segs" "concat (map before segs) = rest"
      "concat (map after segs) = re_sub entity_pattern rest"
      by blast
    let ?segs = "Blanked a b tg c' d p f # segs"
    have r: "re_sub entity_pattern (c # cs) = (g1 @ g2) @ re_sub entity_pattern rest"
      using Some repl short by simp
    have 1: "list_all tagged_entity ?segs"
      using wf segs(1) by simp
    have 2: "concat (map before ?segs) = c # cs"
      unfolding s using segs(2) by simp
    have 3: "concat (map after ?segs) = re_sub entity_pattern (c # cs)"
      unfolding r out using segs(3) by simp
    from 1 2 3 show ?thesis by blast
  qed
qed

text \<open>
  C7. The strategy-1 substitution blanks the payload of every tagged entity it comes to and
  keeps every other character. A tagged entity is a stretch
  \<open>DESCRIPTIVE_REPRESENTATION_ITEM ( 'tag' , 'payload' )\<close> with the tag \<open>SVFM\<close> or
  \<open>StepViewerFaceMetadata\<close>, white space only between the tokens and no quote in the payload.
  Where the text starts with a tagged entity, the output starts with the same entity written
  with the empty payload (keyword, parentheses, tag, comma, both quotes of the payload and
  the white space stay) and goes on with the substitution of the text after the entity.
  Where it does not, the first character is kept and the substitution goes on after it. So
  a tagged entity after a stretch within which no tagged entity starts is blanked and the
  stretch before it is kept whole; and every text is a sequence of kept stretches and tagged
  entities, of which the output is the same sequence with the payloads emptied.
\<close>

theorem blank_entities_blanks_payloads_only:
  "(tagged_entity (Blanked a b tg c d p f) \<longrightarrow>
      blank_entities (entity_text a b tg c d p f @ rest) =
        entity_text a b tg c d [] f @ blank_entities rest) \<and>
   (\<not> starts_with_entity (x # xs) \<longrightarrow> blank_entities (x # xs) = x # blank_entities xs) \<and>
   blank_entities [] = [] \<and>
   (tagged_entity (Blanked a b tg c d p f) \<and>
    no_entity_within pre (entity_text a b tg c d p f @ rest) \<longrightarrow>
      blank_entities (pre @ entity_text a b tg c d p f @ rest) =
        pre @ entity_text a b tg c d [] f @ blank_entities rest) \<and>
   (\<exists>segs. list_all tagged_entity segs \<and>
           concat (map before segs) = s \<and>
           concat (map after segs) = blank_entities s)"
  using blank_entities_entity [of a b tg c d p f rest] blank_entities_other [of x xs]
    blank_entities_Nil blank_entities_within [of a b tg c d p f pre rest]
    blank_entities_segments [of s]
  by blast

theorem blank_entities_blanks_payloads_only_witness:
  "tagged_entity (Blanked [32] [32] (lit ''StepViewerFaceMetadata'') [32] [32] (lit ''abc'') [32]) \<and>
   entity_text [32] [32] (lit ''StepViewerFaceMetadata'') [32] [32] (lit ''abc'') [32] =
     lit ''DESCRIPTIVE_REPRESENTATION_ITEM ( '' @ [quote] @ lit ''StepViewerFaceMetadata'' @
     [quote] @ lit '' , '' @ [quote] @ lit ''abc'' @ [quote] @ lit '' )'' \<and>
   \<not> starts_with_entity (lit ''#9='') \<and>
   no_entity_within (lit ''#9='')
     (entity_text [32] [32] (lit ''StepViewerFaceMetadata'') [32] [32] (lit ''abc'') [32] @ lit '';'') \<and>
   blank_entities
     (lit ''#9=DESCRIPTIVE_REPRESENTATION_ITEM ( '' @ [quote] @ lit ''StepViewerFaceMetadata'' @
      [quote] @ lit '' , '' @ [quote] @ lit ''abc'' @ [quote] @ lit '' );'') =
     lit ''#9=DESCRIPTIVE_REPRESENTATION_ITEM ( '' @ [quote] @ lit ''StepViewerFaceMetadata'' @
     [quote] @ lit '' , '' @ [quote] @ [quote] @ lit '' );'' \<and>
   blank_entities (lit ''#9='') = lit ''#'' @ blank_entities (lit ''9='') \<and>
   blank_entities two_entities = two_entities_blanked \<and>
   (\<exists>segs. list_all tagged_entity segs \<and>
            concat (map before segs) = two_entities \<and>
            concat (map after segs) = two_entities_blanked)"
proof -
  let ?tg = "lit ''StepViewerFaceMetadata''"
  let ?e = "entity_text [32] [32] ?tg [32] [32] (lit ''abc'') [32]"
  let ?b = "entity_text [32] [32] ?tg [32] [32] [] [32]"
  have h1: "tagged_entity (Blanked [32] [32] ?tg [32] [32] (lit ''abc'') [32])"
    by (simp add: is_space_def quote_def lit_def)
  have t1: "?e = lit ''DESCRIPTIVE_REPRESENTATION_ITEM ( '' @ [quote] @ ?tg @
     [quote] @ lit '' , '' @ [quote] @ lit ''abc'' @ [quote] @ lit '' )''"
    by (simp add: entity_text_def keyword_def lit_def)
  have t2: "?b = lit ''DESCRIPTIVE_REPRESENTATION_ITEM ( '' @ [quote] @ ?tg @
     [quote] @ lit '' , '' @ [quote] @ [quote] @ lit '' )''"
    by (simp add: entity_text_def keyword_def lit_def)
  have st: "hd t = 68" if "starts_with_entity t" for t
    using that by (auto simp: starts_with_entity_def entity_text_def keyword_def lit_def)
  have h2: "\<not> starts_with_entity (lit ''#9='')"
    using st [of "lit ''#9=''"] by (auto simp: lit_def)
  have h3: "no_entity_within (lit ''#9='') (?e @ lit '';'')"
    unfolding no_entity_within_def
  proof (intro allI impI)
    fix u v assume uv: "lit ''#9='' = u @ v \<and> v \<noteq> []"
    then have "hd v \<in> set (lit ''#9='')"
      by (metis hd_in_set Un_iff set_append)
    then have "hd (v @ ?e @ lit '';'') \<noteq> 68"
      using uv by (auto simp: lit_def)
    then show "\<not> starts_with_entity (v @ ?e @ lit '';'')"
      using st by blast
  qed
  have e: "blank_entities two_entities = two_entities_blanked"
    by (simp add: two_entities_def two_entities_blanked_def blank_entities_def entity_pattern_def
          entity_match_def entity_tail_def keyword_def quote_def is_space_def lit_def)
  have n: "blank_entities (lit '';'') = lit '';''"
    by (simp add: blank_entities_def entity_pattern_def entity_match_def keyword_def lit_def)
  note T = blank_entities_blanks_payloads_only [of "[32]" "[32]" ?tg "[32]" "[32]" "lit ''abc''" "[32]"
      "lit '';''" 35 "lit ''9=''" "lit ''#9=''" two_entities]
  from T h1 h3 have "blank_entities (lit ''#9='' @ ?e @ lit '';'') =
      lit ''#9='' @ ?b @ blank_entities (lit '';'')"
    by blast
  then have r1: "blank_entities
     (lit ''#9=DESCRIPTIVE_REPRESENTATION_ITEM ( '' @ [quote] @ ?tg @
      [quote] @ lit '' , '' @ [quote] @ lit ''abc'' @ [quote] @ lit '' );'') =
     lit ''#9=DESCRIPTIVE_REPRESENTATION_ITEM ( '' @ [quote] @ ?tg @
     [quote] @ lit '' , '' @ [quote] @ [quote] @ lit '' );''"
    unfolding n t1 t2 by (simp add: lit_def)
  have "lit ''#9='' = 35 # lit ''9=''" by (simp add: lit_def)
  with T h2 have r2: "blank_entities (lit ''#9='') = lit ''#'' @ blank_entities (lit ''9='')"
    by (simp add: lit_def)
  from T have r3: "\<exists>segs. list_all tagged_entity segs \<and>
            concat (map before segs) = two_entities \<and>
            concat (map after segs) = blank_entities two_entities"
    by blast
  from h1 t1 h2 h3 r1 r2 r3 show ?thesis
    unfolding e by blast
qed

section \<open>Stripping what was embedded\<close>

subsection \<open>Scanning over text in which a pattern cannot begin\<close>

lemma never_opens_Nil [simp]: "never_opens op []"
  by (simp add: never_opens_def)










subsection \<open>The first occurrence of a closing marker\<close>





subsection \<open>The three substitutions, piece by piece\<close>

lemma embedded_Cons [simp]: "embedded (x # ps) = render x @ embedded ps"
  by (simp add: embedded_def)

lemma embedded_Nil [simp]: "embedded [] = []"
  by (simp add: embedded_def)




















subsection \<open>Extraction after stripping\<close>












end
